theory Spec2Isabelle
  imports Complex_Main "HOL-Library.Word"
begin

section \<open>The Braitenberg vehicle controller\<close>

text \<open>
  A model of \<^verbatim>\<open>braitenberg_vehicle_controller.cpp\<close>: the controller node keeps the
  latest goal pose, and a periodic tick turns two emulated light-sensor readings into a
  velocity command through the motion model handed to the node.
\<close>

subsection \<open>Values of type double\<close>

text \<open>
  A \<^verbatim>\<open>double\<close> is an IEEE-754 binary64 value: a finite number, one of the two
  infinities, or a NaN. The finite values are kept as the real number they denote. The
  sign of a zero and the payload of a NaN are not kept: no operation of the controller
  can tell them apart (the distance is a \<^verbatim>\<open>hypot\<close>, which is never a negative zero).
\<close>

datatype double = Num real | PosInf | NegInf | NaN

text \<open>
  Rounding of a real result to binary64, to nearest with ties to even: the result is a
  multiple of the unit in the last place of its binade, with 53 significant bits, and the
  subnormal range has the fixed unit \<open>2 powi (- 1074)\<close>.
\<close>

definition round_half_even :: "real \<Rightarrow> int" where
  "round_half_even x =
     (let n = \<lfloor>x\<rfloor>; f = x - of_int n
      in if f < 1 / 2 then n
         else if 1 / 2 < f then n + 1
         else if even n then n else n + 1)"

definition ulp_exponent :: "real \<Rightarrow> int" where
  "ulp_exponent r = max (\<lfloor>log 2 \<bar>r\<bar>\<rfloor> - 52) (- 1074)"

definition round_nearest_even :: "real \<Rightarrow> real" where
  "round_nearest_even r =
     (if r = 0 then 0
      else sgn r * of_int (round_half_even (\<bar>r\<bar> / 2 powi ulp_exponent r))
             * 2 powi ulp_exponent r)"

definition max_double :: real where
  "max_double = (2 - 2 powi (- 52)) * 2 powi 1023"

text \<open>The value an arithmetic operation delivers for the exact result \<open>r\<close>.\<close>

definition to_double :: "real \<Rightarrow> double" where
  "to_double r =
     (let v = round_nearest_even r
      in if max_double < v then PosInf
         else if v < - max_double then NegInf
         else Num v)"

text \<open>A value of the model that is a binary64 value: rounding leaves it alone.\<close>

fun is_double :: "double \<Rightarrow> bool" where
  "is_double (Num r) = (to_double r = Num r)"
| "is_double PosInf = True"
| "is_double NegInf = True"
| "is_double NaN = True"

text \<open>\<^verbatim>\<open>std::numeric_limits<double>::epsilon()\<close>\<close>

definition epsilon :: double where
  "epsilon = Num (2 powi (- 52))"

text \<open>Unary minus, subtraction and multiplication.\<close>

fun fneg :: "double \<Rightarrow> double" where
  "fneg (Num a) = Num (- a)"
| "fneg PosInf = NegInf"
| "fneg NegInf = PosInf"
| "fneg NaN = NaN"

fun fsub :: "double \<Rightarrow> double \<Rightarrow> double" where
  "fsub (Num a) (Num b) = to_double (a - b)"
| "fsub (Num a) PosInf = NegInf"
| "fsub (Num a) NegInf = PosInf"
| "fsub PosInf (Num b) = PosInf"
| "fsub PosInf NegInf = PosInf"
| "fsub PosInf PosInf = NaN"
| "fsub NegInf (Num b) = NegInf"
| "fsub NegInf PosInf = NegInf"
| "fsub NegInf NegInf = NaN"
| "fsub NaN b = NaN"
| "fsub a NaN = NaN"

fun fmul :: "double \<Rightarrow> double \<Rightarrow> double" where
  "fmul (Num a) (Num b) = to_double (a * b)"
| "fmul (Num a) PosInf = (if a = 0 then NaN else if 0 < a then PosInf else NegInf)"
| "fmul (Num a) NegInf = (if a = 0 then NaN else if 0 < a then NegInf else PosInf)"
| "fmul PosInf (Num b) = (if b = 0 then NaN else if 0 < b then PosInf else NegInf)"
| "fmul NegInf (Num b) = (if b = 0 then NaN else if 0 < b then NegInf else PosInf)"
| "fmul PosInf PosInf = PosInf"
| "fmul PosInf NegInf = NegInf"
| "fmul NegInf PosInf = NegInf"
| "fmul NegInf NegInf = PosInf"
| "fmul NaN b = NaN"
| "fmul a NaN = NaN"

text \<open>\<^verbatim>\<open>std::abs\<close> and the comparison \<^verbatim>\<open><=\<close>, which is false whenever a NaN is involved.\<close>

fun fabs :: "double \<Rightarrow> double" where
  "fabs (Num a) = Num \<bar>a\<bar>"
| "fabs PosInf = PosInf"
| "fabs NegInf = PosInf"
| "fabs NaN = NaN"

fun fle :: "double \<Rightarrow> double \<Rightarrow> bool" where
  "fle (Num a) (Num b) = (a \<le> b)"
| "fle (Num a) PosInf = True"
| "fle (Num a) NegInf = False"
| "fle PosInf (Num b) = False"
| "fle PosInf PosInf = True"
| "fle PosInf NegInf = False"
| "fle NegInf (Num b) = True"
| "fle NegInf PosInf = True"
| "fle NegInf NegInf = True"
| "fle NaN b = False"
| "fle a NaN = False"

text \<open>
  \<^verbatim>\<open>std::hypot\<close>: an infinite argument gives plus infinity, even beside a NaN; otherwise a
  NaN argument gives NaN. For two finite arguments C++ fixes no accuracy, and the
  libraries differ in the last bit of the result. The model keeps what they share. The
  result is one of the two doubles next to the exact root of the sum of the squares:
  that value rounded down or rounded up, which are the same where it is a double
  itself. It is plus infinity when the chosen double is above \<open>max_double\<close>. Which of the
  two a library returns for given arguments is its own choice; the model leaves that
  choice unspecified, and what is proved below holds for every choice.
\<close>

definition round_down :: "real \<Rightarrow> real" where
  "round_down r = of_int \<lfloor>r / 2 powi ulp_exponent r\<rfloor> * 2 powi ulp_exponent r"

definition round_up :: "real \<Rightarrow> real" where
  "round_up r = of_int \<lceil>r / 2 powi ulp_exponent r\<rceil> * 2 powi ulp_exponent r"

definition hypot_rounds_up :: "real \<Rightarrow> real \<Rightarrow> bool" where
  "hypot_rounds_up = undefined"

definition hypot_finite :: "real \<Rightarrow> real \<Rightarrow> double" where
  "hypot_finite a b =
     (let r = sqrt (a * a + b * b);
          v = (if hypot_rounds_up a b then round_up r else round_down r)
      in if max_double < v then PosInf else Num v)"

fun hypot :: "double \<Rightarrow> double \<Rightarrow> double" where
  "hypot (Num a) (Num b) = hypot_finite a b"
| "hypot PosInf b = PosInf"
| "hypot NegInf b = PosInf"
| "hypot a PosInf = PosInf"
| "hypot a NegInf = PosInf"
| "hypot NaN b = NaN"
| "hypot a NaN = NaN"

text \<open>
  Division. C++ leaves the division by a zero undefined, and the controller's comment
  names it as the case to avoid, so it is the error of the model.
\<close>

datatype error = Division_by_zero

fun fdiv :: "double \<Rightarrow> double \<Rightarrow> error + double" where
  "fdiv a (Num b) =
     (if b = 0 then Inl Division_by_zero
      else case a of
             Num a' \<Rightarrow> Inr (to_double (a' / b))
           | PosInf \<Rightarrow> Inr (if 0 < b then PosInf else NegInf)
           | NegInf \<Rightarrow> Inr (if 0 < b then NegInf else PosInf)
           | NaN \<Rightarrow> Inr NaN)"
| "fdiv (Num a) PosInf = Inr (Num 0)"
| "fdiv (Num a) NegInf = Inr (Num 0)"
| "fdiv PosInf PosInf = Inr NaN"
| "fdiv PosInf NegInf = Inr NaN"
| "fdiv NegInf PosInf = Inr NaN"
| "fdiv NegInf NegInf = Inr NaN"
| "fdiv NaN PosInf = Inr NaN"
| "fdiv NaN NegInf = Inr NaN"
| "fdiv a NaN = Inr NaN"

subsection \<open>Messages\<close>

text \<open>
  The message types of \<^verbatim>\<open>geometry_msgs\<close>, \<^verbatim>\<open>std_msgs\<close> and \<^verbatim>\<open>sensor_msgs\<close> the
  node receives and sends. The coordinates \<^verbatim>\<open>x\<close>, \<^verbatim>\<open>y\<close>, \<^verbatim>\<open>z\<close>, \<^verbatim>\<open>w\<close> carry the
  name of their message as a prefix. The \<^verbatim>\<open>float32\<close> fields of a scan are kept as values
  of the same kind as a double; no callback reads them.
\<close>

record point =
  point_x :: double
  point_y :: double
  point_z :: double

record quaternion =
  quaternion_x :: double
  quaternion_y :: double
  quaternion_z :: double
  quaternion_w :: double

record pose =
  position :: point
  orientation :: quaternion

record stamp_time =
  sec :: "32 word"
  nanosec :: "32 word"

record header =
  stamp :: stamp_time
  frame_id :: string

record pose_stamped =
  header :: header
  pose :: pose

record vector3 =
  vector3_x :: double
  vector3_y :: double
  vector3_z :: double

record twist =
  linear :: vector3
  angular :: vector3

record laser_scan =
  scan_header :: header
  angle_min :: double
  angle_max :: double
  angle_increment :: double
  time_increment :: double
  scan_time :: double
  range_min :: double
  range_max :: double
  ranges :: "double list"
  intensities :: "double list"

text \<open>\<^verbatim>\<open>geometry_msgs::msg::Twist()\<close>: every field initialised to zero.\<close>

definition zero_vector3 :: vector3 where
  "zero_vector3 = \<lparr>vector3_x = Num 0, vector3_y = Num 0, vector3_z = Num 0\<rparr>"

definition zero_twist :: twist where
  "zero_twist = \<lparr>linear = zero_vector3, angular = zero_vector3\<rparr>"

subsection \<open>The controller and its collaborators\<close>

text \<open>
  The members of \<^verbatim>\<open>BraitenbergVehicleController\<close>, named as in the class without
  the underscore that ends each name there. The motion model is declared outside this
  file; the controller only calls its \<^verbatim>\<open>get_twist\<close>, so the member is that function.
\<close>

record controller =
  base_link_frame_id :: string
  virtual_light_sensor_position_x_offset :: double
  virtual_light_sensor_position_y_offset :: double
  motion_model :: "double \<Rightarrow> double \<Rightarrow> twist"
  goal_pose :: "pose option"

text \<open>
  The calls a callback makes on the mutex, the motion model and the publisher, in the
  order it makes them. A world is the controller with the trace of the calls made so far.
  One invocation of a callback is followed from its first statement to its return:
  \<^verbatim>\<open>mutex_.lock()\<close> returns once the caller owns the mutex.
\<close>

datatype event = Lock | Unlock | Get_twist double double | Publish twist

record world =
  node :: controller
  trace :: "event list"

definition emit :: "event \<Rightarrow> world \<Rightarrow> world" where
  "emit e w = w\<lparr>trace := trace w @ [e]\<rparr>"

definition mutex_lock :: "world \<Rightarrow> world" where
  "mutex_lock = emit Lock"

definition mutex_unlock :: "world \<Rightarrow> world" where
  "mutex_unlock = emit Unlock"

definition publish :: "twist \<Rightarrow> world \<Rightarrow> world" where
  "publish t = emit (Publish t)"

definition get_twist :: "double \<Rightarrow> double \<Rightarrow> world \<Rightarrow> twist \<times> world" where
  "get_twist l r w = (motion_model (node w) l r, emit (Get_twist l r) w)"

definition set_goal_pose :: "pose option \<Rightarrow> world \<Rightarrow> world" where
  "set_goal_pose g w = w\<lparr>node := (node w)\<lparr>goal_pose := g\<rparr>\<rparr>"

subsection \<open>The callbacks\<close>

text \<open>
  The four member functions, statement by statement. \<^verbatim>\<open>emulate_light_sensor\<close> reads the
  controller and changes nothing; its only way to fail is the division. The tick would
  stop at such a failure; it is shown below that none occurs.
\<close>

definition scan_callback :: "laser_scan \<Rightarrow> world \<Rightarrow> world" where
  "scan_callback scan w = mutex_unlock (mutex_lock w)"

definition goal_pose_callback :: "pose_stamped \<Rightarrow> world \<Rightarrow> world" where
  "goal_pose_callback msg w =
     (let w1 = mutex_lock w;
          w2 = (if frame_id (header msg) = base_link_frame_id (node w1)
                then set_goal_pose (Some (pose msg)) w1
                else set_goal_pose None w1)
      in mutex_unlock w2)"

definition emulate_light_sensor :: "controller \<Rightarrow> double \<Rightarrow> double \<Rightarrow> error + double" where
  "emulate_light_sensor c x_offset y_offset =
     (case goal_pose c of
        Some g \<Rightarrow>
          (let distance = hypot (fsub (point_x (position g)) x_offset)
                                (fsub (point_y (position g)) y_offset)
           in if fle (fabs distance) epsilon then Inr (Num 1)
              else fdiv (Num 1) distance)
      | None \<Rightarrow> Inr (Num 0))"

definition timer_callback :: "world \<Rightarrow> error + world" where
  "timer_callback w =
     (let w1 = mutex_lock w in
      if goal_pose (node w1) \<noteq> None then
        (case emulate_light_sensor (node w1)
                (virtual_light_sensor_position_x_offset (node w1))
                (fmul (virtual_light_sensor_position_y_offset (node w1)) (Num (- 1))) of
           Inl err \<Rightarrow> Inl err
         | Inr l \<Rightarrow>
             (case emulate_light_sensor (node w1)
                     (virtual_light_sensor_position_x_offset (node w1))
                     (virtual_light_sensor_position_y_offset (node w1)) of
                Inl err \<Rightarrow> Inl err
              | Inr r \<Rightarrow>
                  (let (t, w2) = get_twist l r w1
                   in Inr (mutex_unlock (publish t w2)))))
      else Inr (mutex_unlock (publish zero_twist w1)))"

subsection \<open>Reading a trace\<close>

text \<open>The velocity commands published in a trace, in order.\<close>

fun published :: "event list \<Rightarrow> twist list" where
  "published [] = []"
| "published (Publish t # es) = t # published es"
| "published (e # es) = published es"

text \<open>
  \<open>publish_while_locked held es\<close>: some publish call of \<open>es\<close> is made while the mutex is
  held, where \<open>held\<close> says whether it is held when \<open>es\<close> starts.
\<close>

fun publish_while_locked :: "bool \<Rightarrow> event list \<Rightarrow> bool" where
  "publish_while_locked held [] = False"
| "publish_while_locked held (Lock # es) = publish_while_locked True es"
| "publish_while_locked held (Unlock # es) = publish_while_locked False es"
| "publish_while_locked held (Publish t # es) = (held \<or> publish_while_locked held es)"
| "publish_while_locked held (Get_twist l r # es) = publish_while_locked held es"

text \<open>The events a callback has added to the trace of \<open>w\<close> when it returns \<open>w'\<close>.\<close>

definition new_events :: "world \<Rightarrow> world \<Rightarrow> event list" where
  "new_events w w' = drop (length (trace w)) (trace w')"

subsection \<open>The reading as the specification words it\<close>

text \<open>
  The piecewise reference function of the specification, over the real numbers: 0
  without a goal; otherwise, with \<open>d\<close> the Euclidean distance between the goal position
  and the offset point, 1 when \<open>|d|\<close> is at or below machine epsilon and \<open>1 / d\<close>
  otherwise.
\<close>

definition euclidean_distance :: "real \<times> real \<Rightarrow> real \<times> real \<Rightarrow> real" where
  "euclidean_distance p q = sqrt ((fst p - fst q)\<^sup>2 + (snd p - snd q)\<^sup>2)"

definition reference_light_sensor :: "(real \<times> real) option \<Rightarrow> real \<Rightarrow> real \<Rightarrow> real" where
  "reference_light_sensor goal x_offset y_offset =
     (case goal of
        None \<Rightarrow> 0
      | Some p \<Rightarrow>
          (let d = euclidean_distance p (x_offset, y_offset)
           in if \<bar>d\<bar> \<le> 2 powi (- 52) then 1 else 1 / d))"

subsection \<open>Words for the statements\<close>

text \<open>
  The distance \<^verbatim>\<open>emulate_light_sensor\<close> computes between the goal \<open>g\<close> and the point
  \<open>(x_offset, y_offset)\<close>, as the source writes it.
\<close>

abbreviation goal_distance :: "pose \<Rightarrow> double \<Rightarrow> double \<Rightarrow> double" where
  "goal_distance g x_offset y_offset \<equiv>
     hypot (fsub (point_x (position g)) x_offset) (fsub (point_y (position g)) y_offset)"

text \<open>The comparison \<^verbatim>\<open><\<close> of two doubles, to say that a value exceeds another.\<close>

fun flt :: "double \<Rightarrow> double \<Rightarrow> bool" where
  "flt (Num a) (Num b) = (a < b)"
| "flt (Num a) PosInf = True"
| "flt (Num a) NegInf = False"
| "flt PosInf b = False"
| "flt NegInf (Num b) = True"
| "flt NegInf PosInf = True"
| "flt NegInf NegInf = False"
| "flt NaN b = False"
| "flt a NaN = False"

subsection \<open>A configuration to run the callbacks on\<close>

text \<open>
  A pose at a given position with the identity orientation, a motion model that hands
  its two inputs on as the linear and the angular velocity, and a controller with both
  sensor offsets at a quarter of a metre, started with an empty trace.
\<close>

definition pose_at :: "double \<Rightarrow> double \<Rightarrow> pose" where
  "pose_at px py =
     \<lparr>position = \<lparr>point_x = px, point_y = py, point_z = Num 0\<rparr>,
      orientation = \<lparr>quaternion_x = Num 0, quaternion_y = Num 0, quaternion_z = Num 0,
                     quaternion_w = Num 1\<rparr>\<rparr>"

definition example_motion_model :: "double \<Rightarrow> double \<Rightarrow> twist" where
  "example_motion_model l r =
     \<lparr>linear = \<lparr>vector3_x = l, vector3_y = Num 0, vector3_z = Num 0\<rparr>,
      angular = \<lparr>vector3_x = Num 0, vector3_y = Num 0, vector3_z = r\<rparr>\<rparr>"

definition example_controller :: "pose option \<Rightarrow> controller" where
  "example_controller g =
     \<lparr>base_link_frame_id = ''base_link'',
      virtual_light_sensor_position_x_offset = Num (1 / 4),
      virtual_light_sensor_position_y_offset = Num (1 / 4),
      motion_model = example_motion_model,
      goal_pose = g\<rparr>"

definition start :: "controller \<Rightarrow> world" where
  "start c = \<lparr>node = c, trace = []\<rparr>"

text \<open>
  A coordinate near the top of the binary64 range: \<open>m\<close> times \<open>2 powi 1017\<close>, a double
  for \<open>0 \<le> m \<le> 127\<close>.
\<close>

definition far_coordinate :: "int \<Rightarrow> real" where
  "far_coordinate m = of_int m * 2 powi 1017"

section \<open>Rounding to binary64\<close>

subsection \<open>Rounding to an integer\<close>

lemma round_half_even_of_int: "round_half_even (of_int n) = n"
  by (simp add: round_half_even_def)

lemma round_half_even_nonneg: "0 \<le> x \<Longrightarrow> 0 \<le> round_half_even x"
  by (auto simp: round_half_even_def Let_def)

lemma round_half_even_pos: "1 \<le> x \<Longrightarrow> 1 \<le> round_half_even x"
  by (auto simp: round_half_even_def Let_def)

lemma round_half_even_upper: "of_int (round_half_even x) \<le> x + 1 / 2"
  by (auto simp: round_half_even_def Let_def) linarith+

subsection \<open>The binade of a value\<close>

lemma floor_log2_bounds:
  assumes "0 < r"
  shows "2 powi \<lfloor>log 2 r\<rfloor> \<le> r" and "r < 2 powi (\<lfloor>log 2 r\<rfloor> + 1)"
proof -
  have "2 powr real_of_int \<lfloor>log 2 r\<rfloor> \<le> r \<and> r < 2 powr real_of_int (\<lfloor>log 2 r\<rfloor> + 1)"
    using floor_log_eq_powr_iff [of r 2 "\<lfloor>log 2 r\<rfloor>"] assms by simp
  then show "2 powi \<lfloor>log 2 r\<rfloor> \<le> r" and "r < 2 powi (\<lfloor>log 2 r\<rfloor> + 1)"
    using powr_real_of_int' [of 2 "\<lfloor>log 2 r\<rfloor>"] powr_real_of_int' [of 2 "\<lfloor>log 2 r\<rfloor> + 1"]
    by simp_all
qed

lemma floor_log2_less:
  assumes "0 < r" and "r < 2 powi n"
  shows "\<lfloor>log 2 r\<rfloor> < n"
proof (rule ccontr)
  assume "\<not> \<lfloor>log 2 r\<rfloor> < n"
  then have "(2::real) powi n \<le> 2 powi \<lfloor>log 2 r\<rfloor>"
    by (intro power_int_increasing) simp_all
  then show False using floor_log2_bounds(1) [OF assms(1)] assms(2) by linarith
qed

lemma floor_log2_eq:
  assumes "2 powi n \<le> r" and "r < 2 powi (n + 1)"
  shows "\<lfloor>log 2 r\<rfloor> = n"
proof -
  have r: "0 < r" using assms(1) zero_less_power_int [of "2::real" n] by linarith
  have "\<lfloor>log 2 r\<rfloor> < n + 1" using r assms(2) by (rule floor_log2_less)
  moreover have "\<not> \<lfloor>log 2 r\<rfloor> < n"
  proof
    assume "\<lfloor>log 2 r\<rfloor> < n"
    then have "(2::real) powi (\<lfloor>log 2 r\<rfloor> + 1) \<le> 2 powi n"
      by (intro power_int_increasing) simp_all
    then show False using floor_log2_bounds(2) [OF r] assms(1) by linarith
  qed
  ultimately show ?thesis by linarith
qed

lemma ulp_exponent_minus: "ulp_exponent (- r) = ulp_exponent r"
  by (simp add: ulp_exponent_def)

lemma powi_quotient_int:
  assumes "q \<le> k"
  shows "(2::real) powi k / 2 powi q = of_int (2 ^ nat (k - q))"
proof -
  have "(2::real) powi k / 2 powi q = 2 powi (k - q)"
    by (simp add: power_int_diff)
  also have "\<dots> = 2 ^ nat (k - q)"
    using assms by (simp add: power_int_def)
  finally show ?thesis by simp
qed

subsection \<open>Binary64 values are left alone\<close>

text \<open>
  Rounding is odd, and it leaves every value \<open>m * 2 powi k\<close> with \<open>|m| < 2 ^ 53\<close> and
  \<open>- 1074 \<le> k\<close> as it is. Up to \<open>max_double\<close>, which is \<open>(2 ^ 53 - 1) * 2 powi 971\<close>,
  these are the finite doubles.
\<close>

lemma round_nearest_even_minus: "round_nearest_even (- r) = - round_nearest_even r"
  by (simp add: round_nearest_even_def ulp_exponent_minus sgn_minus)

lemma round_nearest_even_zero: "round_nearest_even 0 = 0"
  by (simp add: round_nearest_even_def)

lemma ulp_exponent_le:
  assumes "0 < m" and "m < 2 ^ 53" and "- 1074 \<le> k"
  shows "ulp_exponent (of_int m * 2 powi k) \<le> k"
proof -
  let ?r = "real_of_int m * 2 powi k"
  have p: "(0::real) < 2 powi k" by (rule zero_less_power_int) simp
  have r: "0 < ?r" using assms(1) p by simp
  have "real_of_int m < 2 ^ 53" using assms(2) by (metis of_int_less_iff of_int_numeral of_int_power)
  then have "?r < 2 ^ 53 * 2 powi k" using p by (intro mult_strict_right_mono)
  also have "\<dots> = 2 powi (53 + k)" using power_int_add [of "2::real" 53 k] by simp
  finally have "\<lfloor>log 2 ?r\<rfloor> < 53 + k" using r by (intro floor_log2_less)
  then show ?thesis using r assms(3) by (simp add: ulp_exponent_def)
qed

lemma exact_quotient:
  assumes "0 < m" and "m < 2 ^ 53" and "- 1074 \<le> k"
  shows "of_int m * 2 powi k / 2 powi ulp_exponent (of_int m * 2 powi k) =
         real_of_int (m * 2 ^ nat (k - ulp_exponent (of_int m * 2 powi k)))"
proof -
  let ?r = "real_of_int m * 2 powi k"
  let ?q = "ulp_exponent ?r"
  have q: "?q \<le> k" by (rule ulp_exponent_le [OF assms])
  have "?r / 2 powi ?q = real_of_int m * (2 powi k / 2 powi ?q)" by simp
  also have "\<dots> = real_of_int (m * 2 ^ nat (k - ?q))" using powi_quotient_int [OF q] by simp
  finally show ?thesis .
qed

lemma exact_product:
  assumes "0 < m" and "m < 2 ^ 53" and "- 1074 \<le> k"
  shows "real_of_int (m * 2 ^ nat (k - ulp_exponent (of_int m * 2 powi k)))
           * 2 powi ulp_exponent (of_int m * 2 powi k) = of_int m * 2 powi k"
proof -
  let ?r = "real_of_int m * 2 powi k"
  let ?q = "ulp_exponent ?r"
  have "real_of_int (m * 2 ^ nat (k - ?q)) * 2 powi ?q = (?r / 2 powi ?q) * 2 powi ?q"
    by (simp only: exact_quotient [OF assms])
  also have "\<dots> = ?r" by simp
  finally show ?thesis .
qed

lemma round_nearest_even_exact_pos:
  assumes "0 < m" and "m < 2 ^ 53" and "- 1074 \<le> k"
  shows "round_nearest_even (of_int m * 2 powi k) = of_int m * 2 powi k"
proof -
  let ?r = "real_of_int m * 2 powi k"
  let ?q = "ulp_exponent ?r"
  have p: "(0::real) < 2 powi k" by (rule zero_less_power_int) simp
  have r: "0 < ?r" using assms(1) p by simp
  have "round_half_even (?r / 2 powi ?q) = m * 2 ^ nat (k - ?q)"
    by (simp only: exact_quotient [OF assms] round_half_even_of_int)
  then have "round_nearest_even ?r = real_of_int (m * 2 ^ nat (k - ?q)) * 2 powi ?q"
    using r by (simp add: round_nearest_even_def)
  then show ?thesis by (simp only: exact_product [OF assms])
qed

lemma round_down_exact:
  assumes "0 < m" and "m < 2 ^ 53" and "- 1074 \<le> k"
  shows "round_down (of_int m * 2 powi k) = of_int m * 2 powi k"
  unfolding round_down_def
  by (simp only: exact_quotient [OF assms] floor_of_int exact_product [OF assms])

lemma round_up_exact:
  assumes "0 < m" and "m < 2 ^ 53" and "- 1074 \<le> k"
  shows "round_up (of_int m * 2 powi k) = of_int m * 2 powi k"
  unfolding round_up_def
  by (simp only: exact_quotient [OF assms] ceiling_of_int exact_product [OF assms])

lemma round_nearest_even_exact:
  assumes "\<bar>m\<bar> < 2 ^ 53" and "- 1074 \<le> k"
  shows "round_nearest_even (of_int m * 2 powi k) = of_int m * 2 powi k"
proof -
  consider "m = 0" | "0 < m" | "m < 0" by linarith
  then show ?thesis
  proof cases
    case 1
    then show ?thesis by (simp add: round_nearest_even_zero)
  next
    case 2
    then show ?thesis using assms by (intro round_nearest_even_exact_pos) simp_all
  next
    case 3
    then have "round_nearest_even (of_int (- m) * 2 powi k) = of_int (- m) * 2 powi k"
      using assms by (intro round_nearest_even_exact_pos) simp_all
    then show ?thesis using round_nearest_even_minus [of "of_int m * 2 powi k"] by simp
  qed
qed

lemma max_double_bounds: "2 powi 1023 \<le> max_double" "max_double < 2 powi 1024" "0 < max_double"
proof -
  have a: "(2::real) powi (- 52) \<le> 1" using power_int_increasing [of "- 52" 0 "2::real"] by simp
  have b: "(0::real) < 2 powi (- 52)" by (simp add: zero_less_power_int)
  have p: "(0::real) < 2 powi 1023" by (simp add: zero_less_power_int)
  have "1 * 2 powi 1023 \<le> (2 - 2 powi (- 52)) * (2::real) powi 1023"
    using a p by (intro mult_right_mono) simp_all
  then show 1: "2 powi 1023 \<le> max_double" by (simp add: max_double_def)
  have "(2 - 2 powi (- 52)) * (2::real) powi 1023 < 2 * 2 powi 1023"
    using b p by (intro mult_strict_right_mono) simp_all
  also have "\<dots> = 2 powi 1024" using power_int_add [of "2::real" 1 1023] by simp
  finally show "max_double < 2 powi 1024" by (simp add: max_double_def)
  show "0 < max_double" using 1 p by linarith
qed

lemma max_double_mantissa: "max_double = (2 ^ 53 - 1) * 2 powi 971"
proof -
  have a: "(2::real) powi 1023 = 2 powi 52 * 2 powi 971"
    using power_int_add [of "2::real" 52 971] by simp
  have b: "(2::real) powi (- 52) * 2 powi 52 = 1"
    using power_int_add [of "2::real" "- 52" 52] by simp
  have c: "(2::real) * 2 powi 52 = 2 ^ 53"
    using power_int_add [of "2::real" 1 52] by simp
  have "max_double = (2 * 2 powi 52 - 2 powi (- 52) * 2 powi 52) * 2 powi 971"
    unfolding max_double_def a by (simp only: algebra_simps)
  then show ?thesis unfolding b c .
qed

lemma binary64_is_double:
  assumes "\<bar>m\<bar> < 2 ^ 53" and "- 1074 \<le> k" and "k \<le> 971"
  shows "is_double (Num (of_int m * 2 powi k))"
proof -
  have p: "(0::real) < 2 powi k" by (rule zero_less_power_int) simp
  have "\<bar>m\<bar> \<le> 2 ^ 53 - 1" using assms(1) by simp
  then have "real_of_int \<bar>m\<bar> \<le> real_of_int (2 ^ 53 - 1)" by (simp only: of_int_le_iff)
  then have m: "\<bar>real_of_int m\<bar> \<le> 2 ^ 53 - 1" by simp
  have "\<bar>real_of_int m * 2 powi k\<bar> = \<bar>real_of_int m\<bar> * 2 powi k"
    using p by (simp add: abs_mult)
  also have "\<dots> \<le> (2 ^ 53 - 1) * 2 powi k"
    using m p by (intro mult_right_mono) simp_all
  also have "\<dots> \<le> (2 ^ 53 - 1) * 2 powi 971"
    using assms(3) by (intro mult_left_mono power_int_increasing) simp_all
  finally have "\<bar>real_of_int m * 2 powi k\<bar> \<le> max_double"
    by (simp only: max_double_mantissa)
  then have "\<not> max_double < real_of_int m * 2 powi k"
    and "\<not> real_of_int m * 2 powi k < - max_double"
    by linarith+
  then show ?thesis
    using round_nearest_even_exact [OF assms(1,2)] by (simp add: to_double_def Let_def)
qed

lemma round_nearest_even_powi:
  assumes "- 1074 \<le> k"
  shows "round_nearest_even (2 powi k) = 2 powi k"
  using round_nearest_even_exact [of 1 k] assms by simp

lemma to_double_powi:
  assumes "- 1074 \<le> k" and "k \<le> 1023"
  shows "to_double (2 powi k) = Num (2 powi k)"
proof -
  have "(2::real) powi k \<le> 2 powi 1023" using assms(2) by (rule power_int_increasing) simp
  then have "(2::real) powi k \<le> max_double" using max_double_bounds(1) by linarith
  moreover have "- max_double \<le> (2::real) powi k"
    using max_double_bounds(3) zero_less_power_int [of "2::real" k] by linarith
  ultimately show ?thesis
    using assms by (simp add: to_double_def round_nearest_even_powi)
qed

lemma to_double_zero: "to_double 0 = Num 0"
  using max_double_bounds(3) by (simp add: to_double_def round_nearest_even_zero)

lemma to_double_minus: "to_double (- r) = fneg (to_double r)"
  using max_double_bounds(3) by (auto simp: to_double_def round_nearest_even_minus Let_def)

lemma to_double_Num: "to_double r = Num u \<Longrightarrow> u = round_nearest_even r"
  by (simp add: to_double_def Let_def split: if_splits)

lemma to_double_in_range:
  assumes "\<bar>round_nearest_even r\<bar> \<le> max_double"
  shows "to_double r = Num (round_nearest_even r)"
proof -
  have "\<not> max_double < round_nearest_even r" and "\<not> round_nearest_even r < - max_double"
    using assms by linarith+
  then show ?thesis by (simp add: to_double_def Let_def)
qed

subsection \<open>Sign and range of a rounded result\<close>

text \<open>
  A result that is not negative is not rounded to a negative value, and a result between
  the least subnormal \<open>2 powi (- 1074)\<close> and \<open>2 powi 52\<close> is rounded to a finite, strictly
  positive value: it neither underflows to zero nor overflows.
\<close>

lemma round_nearest_even_nonneg: "0 \<le> r \<Longrightarrow> 0 \<le> round_nearest_even r"
  by (simp add: round_nearest_even_def round_half_even_nonneg sgn_if)

lemma to_double_nonneg:
  "0 \<le> r \<Longrightarrow> to_double r = PosInf \<or> (\<exists>v. to_double r = Num v \<and> 0 \<le> v \<and> v \<le> max_double)"
  using round_nearest_even_nonneg [of r] max_double_bounds(3)
  by (auto simp: to_double_def Let_def)

lemma ulp_le_arg:
  assumes "2 powi (- 1074) \<le> r"
  shows "2 powi ulp_exponent r \<le> r"
proof -
  have r: "0 < r" using assms zero_less_power_int [of "2::real" "- 1074"] by linarith
  show ?thesis
  proof (cases "\<lfloor>log 2 r\<rfloor> - 52 \<le> - 1074")
    case True
    then have "ulp_exponent r = - 1074" using r by (simp add: ulp_exponent_def)
    then show ?thesis using assms by simp
  next
    case False
    then have q: "ulp_exponent r = \<lfloor>log 2 r\<rfloor> - 52" using r by (simp add: ulp_exponent_def)
    have "(2::real) powi (\<lfloor>log 2 r\<rfloor> - 52) \<le> 2 powi \<lfloor>log 2 r\<rfloor>"
      by (rule power_int_increasing) simp_all
    then show ?thesis using floor_log2_bounds(1) [OF r] q by simp
  qed
qed

lemma round_nearest_even_pos:
  assumes "2 powi (- 1074) \<le> r"
  shows "0 < round_nearest_even r"
proof -
  let ?q = "ulp_exponent r"
  have r: "0 < r" using assms zero_less_power_int [of "2::real" "- 1074"] by linarith
  have p: "(0::real) < 2 powi ?q" by (simp add: zero_less_power_int)
  have "1 \<le> r / 2 powi ?q" using ulp_le_arg [OF assms] p by (simp add: le_divide_eq)
  then have "1 \<le> round_half_even (r / 2 powi ?q)" by (rule round_half_even_pos)
  then have "0 < real_of_int (round_half_even (r / 2 powi ?q)) * 2 powi ?q"
    using p by (intro mult_pos_pos) simp_all
  then show ?thesis using r by (simp add: round_nearest_even_def)
qed

lemma round_nearest_even_upper:
  assumes "0 < r"
  shows "round_nearest_even r \<le> r + 2 powi ulp_exponent r / 2"
proof -
  let ?q = "ulp_exponent r"
  have p: "(0::real) < 2 powi ?q" by (simp add: zero_less_power_int)
  have "real_of_int (round_half_even (r / 2 powi ?q)) * 2 powi ?q \<le> (r / 2 powi ?q + 1 / 2) * 2 powi ?q"
    using round_half_even_upper [of "r / 2 powi ?q"] p by (intro mult_right_mono) simp_all
  also have "\<dots> = r + 2 powi ?q / 2" using p by (simp add: algebra_simps)
  finally show ?thesis using assms by (simp add: round_nearest_even_def)
qed

lemma ulp_exponent_small:
  assumes "0 < r" and "r < 2 powi 52"
  shows "ulp_exponent r \<le> - 1"
  using floor_log2_less [OF assms] assms(1) by (simp add: ulp_exponent_def)

lemma round_nearest_even_small:
  assumes "0 < r" and "r < 2 powi 52"
  shows "round_nearest_even r \<le> max_double"
proof -
  have "(2::real) powi ulp_exponent r \<le> 2 powi (- 1)"
    using ulp_exponent_small [OF assms] by (intro power_int_increasing) simp_all
  then have "round_nearest_even r \<le> r + 1" 
    using round_nearest_even_upper [OF assms(1)] by simp
  moreover have "(2::real) powi 52 + 1 \<le> 2 powi 1023"
  proof -
    have "(2::real) powi 52 + 1 \<le> 2 powi 52 + 2 powi 52"
      using power_int_increasing [of 0 52 "2::real"] by simp
    also have "\<dots> = 2 powi 53" using power_int_add [of "2::real" 1 52] by simp
    also have "\<dots> \<le> 2 powi 1023" by (rule power_int_increasing) simp_all
    finally show ?thesis .
  qed
  ultimately show ?thesis using assms(2) max_double_bounds(1) by linarith
qed

lemma to_double_pos:
  assumes "2 powi (- 1074) \<le> r" and "r < 2 powi 52"
  shows "\<exists>u. to_double r = Num u \<and> 0 < u"
proof -
  have r: "0 < r" using assms(1) zero_less_power_int [of "2::real" "- 1074"] by linarith
  have "0 < round_nearest_even r" by (rule round_nearest_even_pos [OF assms(1)])
  moreover have "round_nearest_even r \<le> max_double" by (rule round_nearest_even_small [OF r assms(2)])
  ultimately show ?thesis using max_double_bounds(3) by (simp add: to_double_def Let_def)
qed

lemma reciprocal_less: "0 < a \<Longrightarrow> a < b \<Longrightarrow> 1 / b < 1 / (a::real)"
  by (simp add: field_simps)

lemma reciprocal_powi: "1 / (2::real) powi k = 2 powi (- k)"
  by (simp add: power_int_minus divide_inverse)

lemma reciprocal_pos:
  assumes "2 powi (- 52) < v" and "v \<le> max_double"
  shows "\<exists>u. fdiv (Num 1) (Num v) = Inr (Num u) \<and> 0 < u"
proof -
  have e: "(0::real) < 2 powi (- 52)" by (rule zero_less_power_int) simp
  then have v: "0 < v" using assms(1) by linarith
  have "v < 2 powi 1024" using assms(2) max_double_bounds(2) by linarith
  then have "1 / 2 powi 1024 < 1 / v" using v by (intro reciprocal_less)
  moreover have "1 / (2::real) powi 1024 = 2 powi (- 1024)" by (rule reciprocal_powi)
  moreover have "(2::real) powi (- 1074) \<le> 2 powi (- 1024)"
    by (rule power_int_increasing) simp_all
  ultimately have lo: "2 powi (- 1074) \<le> 1 / v" by linarith
  have "1 / v < 1 / 2 powi (- 52)" using assms(1) e by (intro reciprocal_less)
  moreover have "1 / (2::real) powi (- 52) = 2 powi 52"
    using reciprocal_powi [of "- 52"] by (simp only: minus_minus)
  ultimately have hi: "1 / v < 2 powi 52" by linarith
  obtain u where "to_double (1 / v) = Num u" and "0 < u"
    using to_double_pos [OF lo hi] by blast
  then show ?thesis using v by simp
qed

lemma reciprocal_rounded:
  assumes "2 powi (- 52) < v" and "v \<le> max_double"
  shows "fdiv (Num 1) (Num v) = Inr (Num (round_nearest_even (1 / v)))"
proof -
  obtain u where u: "fdiv (Num 1) (Num v) = Inr (Num u)"
    using reciprocal_pos [OF assms] by blast
  have v: "v \<noteq> 0" using assms(1) zero_less_power_int [of "2::real" "- 52"] by linarith
  then have "to_double (1 / v) = Num u" using u by simp
  then have "u = round_nearest_even (1 / v)" by (rule to_double_Num)
  with u show ?thesis by simp
qed

text \<open>
  Rounding down and rounding up stay within one unit in the last place of the value, on
  either side of it, and rounding up does not pass \<open>max_double\<close> from below.
\<close>

lemma round_down_bounds:
  "round_down r \<le> r" "r - 2 powi ulp_exponent r < round_down r"
proof -
  let ?p = "(2::real) powi ulp_exponent r"
  have p: "0 < ?p" by (rule zero_less_power_int) simp
  have "of_int \<lfloor>r / ?p\<rfloor> * ?p \<le> (r / ?p) * ?p"
    using p by (intro mult_right_mono) simp_all
  then show "round_down r \<le> r" using p by (simp add: round_down_def)
  have "(r / ?p - 1) * ?p < of_int \<lfloor>r / ?p\<rfloor> * ?p"
    using p by (intro mult_strict_right_mono) linarith+
  then show "r - ?p < round_down r" using p by (simp add: round_down_def algebra_simps)
qed

lemma round_up_bounds:
  "r \<le> round_up r" "round_up r < r + 2 powi ulp_exponent r"
proof -
  let ?p = "(2::real) powi ulp_exponent r"
  have p: "0 < ?p" by (rule zero_less_power_int) simp
  have "(r / ?p) * ?p \<le> of_int \<lceil>r / ?p\<rceil> * ?p"
    using p by (intro mult_right_mono) simp_all
  then show "r \<le> round_up r" using p by (simp add: round_up_def)
  have "of_int \<lceil>r / ?p\<rceil> * ?p < (r / ?p + 1) * ?p"
    using p by (intro mult_strict_right_mono) linarith+
  then show "round_up r < r + ?p" using p by (simp add: round_up_def algebra_simps)
qed

lemma round_down_nonneg: "0 \<le> r \<Longrightarrow> 0 \<le> round_down r"
  unfolding round_down_def by (intro mult_nonneg_nonneg) simp_all

lemma round_up_le_max_double:
  assumes "0 \<le> r" and "r \<le> max_double"
  shows "round_up r \<le> max_double"
proof (cases "r = 0")
  case True
  then show ?thesis using max_double_bounds(3) by (simp add: round_up_def)
next
  case False
  let ?q = "ulp_exponent r"
  let ?p = "(2::real) powi ?q"
  have r: "0 < r" using assms(1) False by simp
  have p: "0 < ?p" by (rule zero_less_power_int) simp
  have "r < 2 powi 1024" using assms(2) max_double_bounds(2) by linarith
  then have "\<lfloor>log 2 r\<rfloor> < 1024" using r by (intro floor_log2_less)
  then have q: "?q \<le> 971" using r by (simp add: ulp_exponent_def)
  have "max_double / ?p = (2 ^ 53 - 1) * (2 powi 971 / ?p)"
    by (simp only: max_double_mantissa times_divide_eq_right)
  also have "\<dots> = real_of_int ((2 ^ 53 - 1) * 2 ^ nat (971 - ?q))"
    using powi_quotient_int [OF q] by simp
  finally have m: "max_double / ?p = real_of_int ((2 ^ 53 - 1) * 2 ^ nat (971 - ?q))" .
  have "r / ?p \<le> max_double / ?p" using assms(2) p by (simp add: divide_right_mono)
  then have "\<lceil>r / ?p\<rceil> \<le> (2 ^ 53 - 1) * 2 ^ nat (971 - ?q)"
    unfolding m by (simp only: ceiling_le_iff)
  then have "real_of_int \<lceil>r / ?p\<rceil> \<le> max_double / ?p"
    unfolding m by (simp only: of_int_le_iff)
  then have "real_of_int \<lceil>r / ?p\<rceil> * ?p \<le> (max_double / ?p) * ?p"
    using p by (intro mult_right_mono) simp_all
  then show ?thesis using p by (simp add: round_up_def)
qed

text \<open>The results of \<^verbatim>\<open>std::hypot\<close> on finite arguments.\<close>

lemma hypot_finite_cases:
  "hypot_finite a b = PosInf \<and> max_double < sqrt (a * a + b * b)
   \<or> (\<exists>v. hypot_finite a b = Num v \<and> 0 \<le> v \<and> v \<le> max_double
          \<and> sqrt (a * a + b * b) - 2 powi ulp_exponent (sqrt (a * a + b * b)) < v
          \<and> v < sqrt (a * a + b * b) + 2 powi ulp_exponent (sqrt (a * a + b * b)))"
proof -
  let ?r = "sqrt (a * a + b * b)"
  have r: "0 \<le> ?r" by simp
  have p: "(0::real) < 2 powi ulp_exponent ?r" by (rule zero_less_power_int) simp
  show ?thesis
  proof (cases "hypot_rounds_up a b")
    case True
    show ?thesis
    proof (cases "max_double < round_up ?r")
      case over: True
      then have "max_double < ?r" using round_up_le_max_double [OF r] by (rule_tac ccontr) simp
      then show ?thesis using True over by (simp add: hypot_finite_def Let_def)
    next
      case False
      moreover have "0 \<le> round_up ?r" using round_up_bounds(1) [of ?r] r by linarith
      moreover have "?r - 2 powi ulp_exponent ?r < round_up ?r"
        using round_up_bounds(1) [of ?r] p by linarith
      ultimately show ?thesis
        using True round_up_bounds(2) [of ?r] by (simp add: hypot_finite_def Let_def)
    qed
  next
    case down: False
    show ?thesis
    proof (cases "max_double < round_down ?r")
      case True
      then have "max_double < ?r" using round_down_bounds(1) [of ?r] by linarith
      then show ?thesis using down True by (simp add: hypot_finite_def Let_def)
    next
      case False
      moreover have "round_down ?r < ?r + 2 powi ulp_exponent ?r"
        using round_down_bounds(1) [of ?r] p by linarith
      ultimately show ?thesis
        using down round_down_nonneg [OF r] round_down_bounds(2) [of ?r]
        by (simp add: hypot_finite_def Let_def)
    qed
  qed
qed

lemma hypot_finite_exact:
  assumes "sqrt (a * a + b * b) = of_int m * 2 powi k"
    and "0 < m" and "m < 2 ^ 53" and "- 1074 \<le> k"
  shows "hypot_finite a b =
     (if max_double < of_int m * 2 powi k then PosInf else Num (of_int m * 2 powi k))"
  by (simp add: hypot_finite_def Let_def assms(1) round_up_exact [OF assms(2-4)]
      round_down_exact [OF assms(2-4)])

lemma hypot_cases:
  "hypot a b = PosInf \<or> hypot a b = NaN \<or> (\<exists>v. hypot a b = Num v \<and> 0 \<le> v \<and> v \<le> max_double)"
proof (cases a; cases b)
  fix x y assume "a = Num x" "b = Num y"
  then show ?thesis using hypot_finite_cases [of x y] by auto
qed simp_all

section \<open>The sensor and the tick\<close>

subsection \<open>The guard of the division\<close>

text \<open>
  A distance that fails the test \<open>|d| \<le> epsilon\<close> is not zero: it is above epsilon, or
  it is a NaN, for which every comparison is false.
\<close>

lemma epsilon_pos: "(0::real) < 2 powi (- 52)"
  by (rule zero_less_power_int) simp

lemma above_epsilon_nonzero: "\<not> fle (fabs d) epsilon \<Longrightarrow> d \<noteq> Num 0"
  using epsilon_pos by (auto simp: epsilon_def)

lemma above_epsilon_cases:
  "\<not> fle (fabs d) epsilon \<Longrightarrow> flt epsilon (fabs d) \<or> d = NaN"
  by (cases d) (auto simp: epsilon_def)

lemma fdiv_defined: "d \<noteq> Num 0 \<Longrightarrow> \<exists>v. fdiv a d = Inr v"
  by (cases a; cases d) simp_all

subsection \<open>The paths of the sensor\<close>

lemma emulate_light_sensor_no_goal:
  "goal_pose c = None \<Longrightarrow> emulate_light_sensor c x_offset y_offset = Inr (Num 0)"
  by (simp add: emulate_light_sensor_def)

lemma emulate_light_sensor_goal:
  "goal_pose c = Some g \<Longrightarrow>
   emulate_light_sensor c x_offset y_offset =
     (if fle (fabs (goal_distance g x_offset y_offset)) epsilon then Inr (Num 1)
      else fdiv (Num 1) (goal_distance g x_offset y_offset))"
  by (simp add: emulate_light_sensor_def Let_def)

lemma emulate_light_sensor_total: "\<exists>v. emulate_light_sensor c x_offset y_offset = Inr v"
proof (cases "goal_pose c")
  case None
  then show ?thesis by (simp add: emulate_light_sensor_no_goal)
next
  case (Some g)
  show ?thesis
  proof (cases "fle (fabs (goal_distance g x_offset y_offset)) epsilon")
    case True
    with Some show ?thesis by (simp add: emulate_light_sensor_goal)
  next
    case False
    then have "goal_distance g x_offset y_offset \<noteq> Num 0" by (rule above_epsilon_nonzero)
    then obtain v where "fdiv (Num 1) (goal_distance g x_offset y_offset) = Inr v"
      using fdiv_defined by blast
    with Some False show ?thesis by (simp add: emulate_light_sensor_goal)
  qed
qed

subsection \<open>The calls of a tick\<close>

lemma timer_callback_idle:
  "goal_pose (node w) = None \<Longrightarrow>
   timer_callback w = Inr (w\<lparr>trace := trace w @ [Lock, Publish zero_twist, Unlock]\<rparr>)"
  by (simp add: timer_callback_def Let_def mutex_lock_def mutex_unlock_def publish_def emit_def)

lemma timer_callback_seeking:
  assumes "goal_pose (node w) = Some g"
    and "emulate_light_sensor (node w) (virtual_light_sensor_position_x_offset (node w))
           (fmul (virtual_light_sensor_position_y_offset (node w)) (Num (- 1))) = Inr l"
    and "emulate_light_sensor (node w) (virtual_light_sensor_position_x_offset (node w))
           (virtual_light_sensor_position_y_offset (node w)) = Inr r"
  shows "timer_callback w =
     Inr (w\<lparr>trace := trace w @ [Lock, Get_twist l r, Publish (motion_model (node w) l r), Unlock]\<rparr>)"
  using assms
  by (simp add: timer_callback_def Let_def mutex_lock_def mutex_unlock_def publish_def emit_def
      get_twist_def)

lemma fmul_minus_one: "is_double y \<Longrightarrow> fmul y (Num (- 1)) = fneg y"
  by (cases y) (simp_all add: to_double_minus)

lemma new_events_append: "new_events w (w\<lparr>trace := trace w @ es\<rparr>) = es"
  by (simp add: new_events_def)

subsection \<open>The reading by the kind of the distance\<close>

text \<open>
  The distance is a \<^verbatim>\<open>hypot\<close>: plus infinity, a NaN, or a finite value from 0 to
  \<open>max_double\<close>. The reciprocal of a finite distance above epsilon lies between
  \<open>2 powi (- 1024)\<close> and \<open>2 powi 52\<close>, so it is rounded to a positive finite value.
\<close>

lemma goal_distance_range:
  assumes "goal_distance g x_offset y_offset = Num v"
  shows "0 \<le> v \<and> v \<le> max_double"
  using hypot_cases [of "fsub (point_x (position g)) x_offset" "fsub (point_y (position g)) y_offset"]
    assms by auto

lemma goal_distance_not_NegInf: "goal_distance g x_offset y_offset \<noteq> NegInf"
  using hypot_cases [of "fsub (point_x (position g)) x_offset" "fsub (point_y (position g)) y_offset"]
  by auto

lemma emulate_light_sensor_finite:
  assumes "goal_pose c = Some g" and "goal_distance g x_offset y_offset = Num v"
  shows "\<exists>u. emulate_light_sensor c x_offset y_offset = Inr (Num u) \<and> 0 < u"
proof (cases "v \<le> 2 powi (- 52)")
  case True
  then have "fle (fabs (Num v)) epsilon"
    using goal_distance_range [OF assms(2)] by (simp add: epsilon_def)
  then show ?thesis using assms by (simp add: emulate_light_sensor_goal)
next
  case False
  then have "\<not> fle (fabs (Num v)) epsilon"
    using goal_distance_range [OF assms(2)] by (simp add: epsilon_def)
  moreover obtain u where "fdiv (Num 1) (Num v) = Inr (Num u)" and "0 < u"
    using reciprocal_pos [of v] False goal_distance_range [OF assms(2)] by auto
  ultimately show ?thesis using assms by (simp add: emulate_light_sensor_goal)
qed

lemma emulate_light_sensor_infinite:
  assumes "goal_pose c = Some g" and "goal_distance g x_offset y_offset = PosInf"
  shows "emulate_light_sensor c x_offset y_offset = Inr (Num 0)"
  using assms by (simp add: emulate_light_sensor_goal epsilon_def)

lemma emulate_light_sensor_NaN:
  assumes "goal_pose c = Some g" and "goal_distance g x_offset y_offset = NaN"
  shows "emulate_light_sensor c x_offset y_offset = Inr NaN"
  using assms by (simp add: emulate_light_sensor_goal)

text \<open>
  The reading over the real numbers, for finite coordinates: the two differences are
  rounded, the distance is next to the root of the sum of their squares, and the
  reciprocal is rounded.
\<close>

lemma emulate_light_sensor_rounded:
  assumes g: "goal_pose c = Some g"
    and gx: "point_x (position g) = Num gx" and gy: "point_y (position g) = Num gy"
    and dx: "\<bar>round_nearest_even (gx - xo)\<bar> \<le> max_double"
    and dy: "\<bar>round_nearest_even (gy - yo)\<bar> \<le> max_double"
  defines "r \<equiv> sqrt ((round_nearest_even (gx - xo))\<^sup>2 + (round_nearest_even (gy - yo))\<^sup>2)"
  shows "(\<exists>d. goal_distance g (Num xo) (Num yo) = Num d
             \<and> 0 \<le> d \<and> d \<le> max_double
             \<and> r - 2 powi ulp_exponent r < d \<and> d < r + 2 powi ulp_exponent r
             \<and> emulate_light_sensor c (Num xo) (Num yo) =
                 (if d \<le> 2 powi (- 52) then Inr (Num 1)
                  else Inr (Num (round_nearest_even (1 / d)))))
        \<or> (goal_distance g (Num xo) (Num yo) = PosInf \<and> max_double < r
             \<and> emulate_light_sensor c (Num xo) (Num yo) = Inr (Num 0))"
proof -
  let ?dx = "round_nearest_even (gx - xo)"
  let ?dy = "round_nearest_even (gy - yo)"
  have r: "r = sqrt (?dx * ?dx + ?dy * ?dy)" by (simp add: r_def power2_eq_square)
  have dist: "goal_distance g (Num xo) (Num yo) = hypot_finite ?dx ?dy"
    by (simp add: gx gy to_double_in_range [OF dx] to_double_in_range [OF dy])
  from hypot_finite_cases [of ?dx ?dy]
  show ?thesis
  proof
    assume "hypot_finite ?dx ?dy = PosInf \<and> max_double < sqrt (?dx * ?dx + ?dy * ?dy)"
    then have "goal_distance g (Num xo) (Num yo) = PosInf" and "max_double < r"
      using dist r by simp_all
    then show ?thesis using emulate_light_sensor_infinite [OF g] by blast
  next
    assume "\<exists>v. hypot_finite ?dx ?dy = Num v \<and> 0 \<le> v \<and> v \<le> max_double
          \<and> sqrt (?dx * ?dx + ?dy * ?dy) - 2 powi ulp_exponent (sqrt (?dx * ?dx + ?dy * ?dy)) < v
          \<and> v < sqrt (?dx * ?dx + ?dy * ?dy) + 2 powi ulp_exponent (sqrt (?dx * ?dx + ?dy * ?dy))"
    then obtain v where v: "goal_distance g (Num xo) (Num yo) = Num v"
      and v0: "0 \<le> v" and vm: "v \<le> max_double"
      and lo: "r - 2 powi ulp_exponent r < v" and hi: "v < r + 2 powi ulp_exponent r"
      using dist r by auto
    have "emulate_light_sensor c (Num xo) (Num yo) =
        (if v \<le> 2 powi (- 52) then Inr (Num 1) else Inr (Num (round_nearest_even (1 / v))))"
    proof (cases "v \<le> 2 powi (- 52)")
      case True
      then show ?thesis
        using v v0 by (simp add: emulate_light_sensor_goal [OF g] epsilon_def)
    next
      case False
      then have "fdiv (Num 1) (Num v) = Inr (Num (round_nearest_even (1 / v)))"
        using vm by (intro reciprocal_rounded) simp_all
      then show ?thesis
        using False v v0 by (simp add: emulate_light_sensor_goal [OF g] epsilon_def)
    qed
    then show ?thesis using v v0 vm lo hi by blast
  qed
qed

text \<open>Every tick returns, and its calls are one of two sequences.\<close>

lemma timer_callback_trace:
  "\<exists>w' t. timer_callback w = Inr w' \<and> node w' = node w
      \<and> (new_events w w' = [Lock, Publish t, Unlock]
          \<or> (\<exists>l r. new_events w w' = [Lock, Get_twist l r, Publish t, Unlock]))"
proof (cases "goal_pose (node w)")
  case None
  then show ?thesis by (simp add: timer_callback_idle new_events_append)
next
  case (Some g)
  let ?x = "virtual_light_sensor_position_x_offset (node w)"
  let ?y = "virtual_light_sensor_position_y_offset (node w)"
  obtain l where l: "emulate_light_sensor (node w) ?x (fmul ?y (Num (- 1))) = Inr l"
    using emulate_light_sensor_total by blast
  obtain r where r: "emulate_light_sensor (node w) ?x ?y = Inr r"
    using emulate_light_sensor_total by blast
  show ?thesis by (simp add: timer_callback_seeking [OF Some l r] new_events_append)
qed

subsection \<open>The example configuration\<close>

text \<open>
  The goal at \<open>(3/4, 1/4)\<close> is half a metre in front of the left sensor at
  \<open>(1/4, 1/4)\<close>: every intermediate value is a power of two, so nothing is rounded.
\<close>

lemma to_double_half: "to_double (1 / 2) = Num (1 / 2)"
  using to_double_powi [of "- 1"] by (simp add: power_int_minus)

lemma to_double_quarter: "to_double (1 / 4) = Num (1 / 4)"
  using to_double_powi [of "- 2"] by (simp add: power_int_minus)

lemma to_double_two: "to_double 2 = Num 2"
  using to_double_powi [of 1] by simp

lemma epsilon_less_half: "\<not> (1 / 2 \<le> (2::real) powi (- 52))"
proof -
  have "(2::real) powi (- 52) < 2 powi (- 1)" by (rule power_int_strict_increasing) simp_all
  then show ?thesis by (simp add: power_int_minus)
qed

lemma example_distance:
  "goal_distance (pose_at (Num (3 / 4)) (Num (1 / 4))) (Num (1 / 4)) (Num (1 / 4)) = Num (1 / 2)"
proof -
  have "sqrt (1 / 2 * (1 / 2) + 0 * 0) = real_of_int 1 * 2 powi (- 1)"
    by (simp add: real_sqrt_divide power_int_minus)
  then have "hypot_finite (1 / 2) 0 = Num (1 / 2)"
    using hypot_finite_exact [of "1 / 2" 0 1 "- 1"] max_double_bounds(1)
      power_int_increasing [of "- 1" 1023 "2::real"]
    by (simp add: power_int_minus)
  then show ?thesis by (simp add: pose_at_def to_double_half to_double_zero)
qed

lemma example_goal_pose: "goal_pose (example_controller g) = g"
  by (simp add: example_controller_def)

lemma example_reading:
  "emulate_light_sensor (example_controller (Some (pose_at (Num (3 / 4)) (Num (1 / 4)))))
     (Num (1 / 4)) (Num (1 / 4)) = Inr (Num 2)"
  using emulate_light_sensor_goal [OF example_goal_pose, of "pose_at (Num (3 / 4)) (Num (1 / 4))"
      "Num (1 / 4)" "Num (1 / 4)"]
  by (simp add: example_distance epsilon_def epsilon_less_half to_double_two)

lemma round_nearest_even_half: "round_nearest_even (1 / 2) = 1 / 2"
  using round_nearest_even_powi [of "- 1"] by (simp add: power_int_minus)

text \<open>
  A goal just above epsilon in front of a sensor at \<open>3 * 2 powi (- 106)\<close>: the real
  difference \<open>2 powi (- 52) + 2 powi (- 106)\<close> is rounded down to epsilon.
\<close>

lemma threshold_difference_rounds_to_epsilon:
  "to_double (2 powi (- 52) + 2 powi (- 104) - 3 * 2 powi (- 106)) = Num (2 powi (- 52))"
proof -
  let ?r = "(2::real) powi (- 52) + 2 powi (- 104) - 3 * 2 powi (- 106)"
  have r: "?r = 2 powi (- 52) + 2 powi (- 106)"
    by (simp add: power_int_minus)
  have lo: "2 powi (- 52) \<le> ?r" unfolding r using zero_less_power_int [of "2::real" "- 106"] by linarith
  have "(2::real) powi (- 106) < 2 powi (- 52)" by (rule power_int_strict_increasing) simp_all
  moreover have "(2::real) powi (- 52) + 2 powi (- 52) = 2 powi (- 51)"
    using power_int_add [of "2::real" 1 "- 52"] by simp
  ultimately have hi: "?r < 2 powi (- 52 + 1)" unfolding r by simp
  have pos: "0 < ?r" using lo zero_less_power_int [of "2::real" "- 52"] by linarith
  have "\<lfloor>log 2 ?r\<rfloor> = - 52" by (rule floor_log2_eq [OF lo hi])
  then have q: "ulp_exponent ?r = - 104" using pos by (simp add: ulp_exponent_def)
  have quot: "\<bar>?r\<bar> / 2 powi (- 104) = 2 ^ 52 + 1 / 4"
    by (simp add: power_int_minus)
  have "round_half_even (2 ^ 52 + 1 / 4) = 2 ^ 52"
  proof -
    have "\<lfloor>(2::real) ^ 52 + 1 / 4\<rfloor> = 2 ^ 52" by (rule floor_unique) simp_all
    then show ?thesis by (simp add: round_half_even_def Let_def)
  qed
  then have "round_nearest_even ?r = 2 ^ 52 * 2 powi (- 104)"
    using pos by (simp only: round_nearest_even_def q quot) simp
  also have "\<dots> = 2 powi (- 52)" by (simp add: power_int_minus)
  finally have "round_nearest_even ?r = 2 powi (- 52)" .
  moreover have "(2::real) powi (- 52) \<le> max_double"
    using power_int_increasing [of "- 52" 1023 "2::real"] max_double_bounds(1) by simp
  moreover have "- max_double \<le> (2::real) powi (- 52)"
    using max_double_bounds(3) zero_less_power_int [of "2::real" "- 52"] by linarith
  ultimately show ?thesis by (simp add: to_double_def Let_def del: power_int_minus)
qed

text \<open>
  The goal at \<open>(119 * 2 powi 1017, 120 * 2 powi 1017)\<close> has two finite coordinates, and
  its distance from the origin, \<open>169 * 2 powi 1017\<close>, is above \<open>max_double\<close>.
\<close>

lemma far_coordinate_round: "\<bar>m\<bar> < 2 ^ 53 \<Longrightarrow> round_nearest_even (far_coordinate m) = far_coordinate m"
  unfolding far_coordinate_def by (rule round_nearest_even_exact) simp_all

lemma far_coordinate_max: "max_double = (2 ^ 7 - 2 powi (- 46)) * 2 powi 1017"
proof -
  have a: "(2::real) powi 1023 = 2 ^ 6 * 2 powi 1017"
    using power_int_add [of "2::real" 6 1017] by simp
  have b: "(2::real) powi (- 52) * 2 ^ 6 = 2 powi (- 46)"
    using power_int_add [of "2::real" "- 52" 6] by simp
  have "max_double = (2 * 2 ^ 6 - 2 powi (- 52) * 2 ^ 6) * 2 powi 1017"
    unfolding max_double_def a by (simp only: algebra_simps)
  then show ?thesis unfolding b by simp
qed

lemma far_coordinate_le: "m \<le> 127 \<Longrightarrow> far_coordinate m \<le> max_double"
proof -
  assume "m \<le> 127"
  then have m: "real_of_int m \<le> 127" by simp
  have p: "(0::real) < 2 powi 1017" by (rule zero_less_power_int) simp
  have "(2::real) powi (- 46) \<le> 2 powi 0" by (rule power_int_increasing) simp_all
  then have "real_of_int m \<le> 2 ^ 7 - 2 powi (- 46)" using m by simp
  then show ?thesis unfolding far_coordinate_def far_coordinate_max
    using p by (intro mult_right_mono) simp_all
qed

lemma far_coordinate_gt: "128 \<le> m \<Longrightarrow> max_double < far_coordinate m"
proof -
  assume "128 \<le> m"
  then have m: "128 \<le> real_of_int m" by simp
  have p: "(0::real) < 2 powi 1017" by (rule zero_less_power_int) simp
  have "(0::real) < 2 powi (- 46)" by (rule zero_less_power_int) simp
  then have "2 ^ 7 - 2 powi (- 46) < real_of_int m" using m by simp
  then show ?thesis unfolding far_coordinate_def far_coordinate_max
    using p by (intro mult_strict_right_mono) simp_all
qed

lemma far_hypot:
  "sqrt (far_coordinate 119 * far_coordinate 119 + far_coordinate 120 * far_coordinate 120)
     = far_coordinate 169"
proof -
  have p: "(0::real) < 2 powi 1017" by (rule zero_less_power_int) simp
  have "far_coordinate 119 * far_coordinate 119 + far_coordinate 120 * far_coordinate 120
      = far_coordinate 169 * far_coordinate 169"
    unfolding far_coordinate_def by (simp only: of_int_numeral)
  moreover have "0 \<le> far_coordinate 169" unfolding far_coordinate_def using p by simp
  ultimately show ?thesis by (simp only: real_sqrt_abs2 abs_of_nonneg)
qed

lemma far_coordinate_nonneg: "0 \<le> m \<Longrightarrow> 0 \<le> far_coordinate m"
  unfolding far_coordinate_def by (intro mult_nonneg_nonneg) simp_all

lemma to_double_far_coordinate:
  assumes "0 \<le> m" and "m \<le> 127"
  shows "to_double (far_coordinate m) = Num (far_coordinate m)"
proof -
  have "m < 2 ^ 53" using assms(2) by simp
  then have "round_nearest_even (far_coordinate m) = far_coordinate m"
    using assms(1) by (intro far_coordinate_round) simp
  moreover have "\<not> max_double < far_coordinate m"
    using far_coordinate_le [OF assms(2)] by linarith
  moreover have "\<not> far_coordinate m < - max_double"
    using far_coordinate_nonneg [OF assms(1)] max_double_bounds(3) by linarith
  ultimately show ?thesis by (simp add: to_double_def Let_def)
qed

lemma to_double_far_overflow: "to_double (far_coordinate 169) = PosInf"
  using far_coordinate_gt [of 169] far_coordinate_round [of 169]
  by (simp add: to_double_def Let_def)

lemma far_goal_reading:
  "emulate_light_sensor
     (example_controller (Some (pose_at (Num (far_coordinate 119)) (Num (far_coordinate 120)))))
     (Num 0) (Num 0) = Inr (Num 0)"
proof -
  let ?g = "pose_at (Num (far_coordinate 119)) (Num (far_coordinate 120))"
  have e: "sqrt (far_coordinate 119 * far_coordinate 119 + far_coordinate 120 * far_coordinate 120)
      = real_of_int 169 * 2 powi 1017"
    using far_hypot by (simp only: far_coordinate_def)
  have "max_double < far_coordinate 169" by (rule far_coordinate_gt) simp
  then have over: "max_double < real_of_int 169 * 2 powi 1017"
    by (simp only: far_coordinate_def)
  have "hypot_finite (far_coordinate 119) (far_coordinate 120) =
      (if max_double < real_of_int 169 * 2 powi 1017 then PosInf
       else Num (real_of_int 169 * 2 powi 1017))"
    by (rule hypot_finite_exact [OF e]) simp_all
  then have "hypot_finite (far_coordinate 119) (far_coordinate 120) = PosInf"
    by (simp only: over if_True)
  then have "goal_distance ?g (Num 0) (Num 0) = PosInf"
    by (simp add: pose_at_def to_double_far_coordinate)
  then show ?thesis
    using emulate_light_sensor_infinite [OF example_goal_pose, of ?g "Num 0" "Num 0"] by simp
qed

section \<open>The properties of the controller\<close>

subsection \<open>The goal callback\<close>

text \<open>
  C1. After \<open>goal_pose_callback\<close> has processed a message with pose \<open>P\<close> and frame id
  \<open>F\<close>, the stored goal is \<open>Some P\<close> exactly when \<open>F\<close> is the configured base frame id,
  and \<open>None\<close> for any other \<open>F\<close>, whatever goal was held before. The callback returns a
  world, never an error; it changes no other member, and it only locks and unlocks.
\<close>

theorem goal_pose_callback_frame_gate:
  "goal_pose (node (goal_pose_callback msg w)) =
     (if frame_id (header msg) = base_link_frame_id (node w) then Some (pose msg) else None)
   \<and> ((goal_pose (node (goal_pose_callback msg w)) = Some (pose msg))
        = (frame_id (header msg) = base_link_frame_id (node w)))
   \<and> node (goal_pose_callback msg w)
        = (node w)\<lparr>goal_pose := goal_pose (node (goal_pose_callback msg w))\<rparr>
   \<and> trace (goal_pose_callback msg w) = trace w @ [Lock, Unlock]"
  by (simp add: goal_pose_callback_def Let_def mutex_lock_def mutex_unlock_def emit_def
      set_goal_pose_def)

subsection \<open>The emulated light sensor\<close>

text \<open>
  C2. Without a goal \<open>emulate_light_sensor\<close> returns 0. With a goal at finite coordinates
  and finite offsets it follows the piecewise reference function on the distance as
  binary64 computes it, not on the real Euclidean distance: each coordinate difference is
  the real difference rounded to nearest (\<open>dx\<close> and \<open>dy\<close>); the distance \<open>d\<close> is a double
  less than one unit in the last place away from the real root of \<open>dx\<^sup>2 + dy\<^sup>2\<close>, or
  plus infinity when that root is above \<open>max_double\<close>; the reading is 1 when \<open>d\<close> is at
  or below epsilon, the real reciprocal \<open>1 / d\<close> rounded to nearest otherwise, and 0
  for the infinite \<open>d\<close>.
\<close>

theorem emulate_light_sensor_rounded_reference:
  "(goal_pose c = None \<longrightarrow> emulate_light_sensor c x_offset y_offset = Inr (Num 0))
   \<and> (\<forall>g gx gy xo yo dx dy r.
        goal_pose c = Some g
        \<and> point_x (position g) = Num gx \<and> point_y (position g) = Num gy
        \<and> x_offset = Num xo \<and> y_offset = Num yo
        \<and> dx = round_nearest_even (gx - xo) \<and> \<bar>dx\<bar> \<le> max_double
        \<and> dy = round_nearest_even (gy - yo) \<and> \<bar>dy\<bar> \<le> max_double
        \<and> r = sqrt (dx\<^sup>2 + dy\<^sup>2) \<longrightarrow>
        (\<exists>d. goal_distance g x_offset y_offset = Num d
             \<and> 0 \<le> d \<and> d \<le> max_double
             \<and> r - 2 powi ulp_exponent r < d \<and> d < r + 2 powi ulp_exponent r
             \<and> emulate_light_sensor c x_offset y_offset =
                 (if d \<le> 2 powi (- 52) then Inr (Num 1)
                  else Inr (Num (round_nearest_even (1 / d)))))
        \<or> (goal_distance g x_offset y_offset = PosInf \<and> max_double < r
             \<and> emulate_light_sensor c x_offset y_offset = Inr (Num 0)))"
proof (intro conjI allI impI)
  assume "goal_pose c = None"
  then show "emulate_light_sensor c x_offset y_offset = Inr (Num 0)"
    by (rule emulate_light_sensor_no_goal)
next
  fix g gx gy xo yo dx dy r
  assume a: "goal_pose c = Some g
        \<and> point_x (position g) = Num gx \<and> point_y (position g) = Num gy
        \<and> x_offset = Num xo \<and> y_offset = Num yo
        \<and> dx = round_nearest_even (gx - xo) \<and> \<bar>dx\<bar> \<le> max_double
        \<and> dy = round_nearest_even (gy - yo) \<and> \<bar>dy\<bar> \<le> max_double
        \<and> r = sqrt (dx\<^sup>2 + dy\<^sup>2)"
  then have g: "goal_pose c = Some g"
    and gx: "point_x (position g) = Num gx" and gy: "point_y (position g) = Num gy"
    and xo: "x_offset = Num xo" and yo: "y_offset = Num yo"
    and dx: "dx = round_nearest_even (gx - xo)" and dy: "dy = round_nearest_even (gy - yo)"
    and r: "r = sqrt (dx\<^sup>2 + dy\<^sup>2)"
    by simp_all
  from a have bx: "\<bar>round_nearest_even (gx - xo)\<bar> \<le> max_double"
    and "by": "\<bar>round_nearest_even (gy - yo)\<bar> \<le> max_double"
    by blast+
  show "(\<exists>d. goal_distance g x_offset y_offset = Num d
             \<and> 0 \<le> d \<and> d \<le> max_double
             \<and> r - 2 powi ulp_exponent r < d \<and> d < r + 2 powi ulp_exponent r
             \<and> emulate_light_sensor c x_offset y_offset =
                 (if d \<le> 2 powi (- 52) then Inr (Num 1)
                  else Inr (Num (round_nearest_even (1 / d)))))
        \<or> (goal_distance g x_offset y_offset = PosInf \<and> max_double < r
             \<and> emulate_light_sensor c x_offset y_offset = Inr (Num 0))"
    unfolding xo yo r dx dy by (rule emulate_light_sensor_rounded [OF g gx gy bx "by"])
qed

text \<open>
  The example goal at \<open>(3/4, 1/4)\<close> and the sensor at \<open>(1/4, 1/4)\<close>: the differences
  are a half and zero, the distance is a half, and the reading is the rounded reciprocal.
\<close>

theorem emulate_light_sensor_rounded_reference_witness:
  "goal_pose (example_controller (Some (pose_at (Num (3 / 4)) (Num (1 / 4))))) =
     Some (pose_at (Num (3 / 4)) (Num (1 / 4)))
   \<and> point_x (position (pose_at (Num (3 / 4)) (Num (1 / 4)))) = Num (3 / 4)
   \<and> point_y (position (pose_at (Num (3 / 4)) (Num (1 / 4)))) = Num (1 / 4)
   \<and> 1 / 2 = round_nearest_even (3 / 4 - 1 / 4) \<and> \<bar>1 / 2\<bar> \<le> max_double
   \<and> 0 = round_nearest_even (1 / 4 - 1 / 4) \<and> \<bar>0\<bar> \<le> max_double
   \<and> 1 / 2 = sqrt ((1 / 2)\<^sup>2 + 0\<^sup>2)
   \<and> goal_distance (pose_at (Num (3 / 4)) (Num (1 / 4))) (Num (1 / 4)) (Num (1 / 4)) = Num (1 / 2)
   \<and> emulate_light_sensor (example_controller (Some (pose_at (Num (3 / 4)) (Num (1 / 4)))))
        (Num (1 / 4)) (Num (1 / 4)) = Inr (Num (round_nearest_even (1 / (1 / 2))))"
proof -
  let ?g = "pose_at (Num (3 / 4)) (Num (1 / 4))"
  let ?c = "example_controller (Some ?g)"
  have g: "goal_pose ?c = Some ?g" by (rule example_goal_pose)
  have gx: "point_x (position ?g) = Num (3 / 4)" and gy: "point_y (position ?g) = Num (1 / 4)"
    by (simp_all add: pose_at_def)
  have dx: "1 / 2 = round_nearest_even (3 / 4 - 1 / 4)" by (simp add: round_nearest_even_half)
  have dy: "0 = round_nearest_even (1 / 4 - 1 / 4)" by (simp add: round_nearest_even_zero)
  have mx: "\<bar>1 / 2\<bar> \<le> max_double"
    using max_double_bounds(1) power_int_increasing [of 0 1023 "2::real"] by simp
  have my: "\<bar>0\<bar> \<le> max_double" using max_double_bounds(3) by simp
  have r: "(1 / 2 :: real) = sqrt ((1 / 2)\<^sup>2 + 0\<^sup>2)"
    by (simp add: real_sqrt_divide power2_eq_square)
  have e: "\<not> (1 / 2 \<le> (2::real) powi (- 52))" by (rule epsilon_less_half)
  have prem: "goal_pose ?c = Some ?g
        \<and> point_x (position ?g) = Num (3 / 4) \<and> point_y (position ?g) = Num (1 / 4)
        \<and> Num (1 / 4) = Num (1 / 4) \<and> Num (1 / 4) = Num (1 / 4)
        \<and> 1 / 2 = round_nearest_even (3 / 4 - 1 / 4) \<and> \<bar>1 / 2\<bar> \<le> max_double
        \<and> 0 = round_nearest_even (1 / 4 - 1 / 4) \<and> \<bar>0\<bar> \<le> max_double
        \<and> 1 / 2 = sqrt ((1 / 2)\<^sup>2 + 0\<^sup>2)"
    using g gx gy dx mx dy my r by (intro conjI refl)
  have "(\<exists>d. goal_distance ?g (Num (1 / 4)) (Num (1 / 4)) = Num d
             \<and> 0 \<le> d \<and> d \<le> max_double
             \<and> 1 / 2 - 2 powi ulp_exponent (1 / 2) < d \<and> d < 1 / 2 + 2 powi ulp_exponent (1 / 2)
             \<and> emulate_light_sensor ?c (Num (1 / 4)) (Num (1 / 4)) =
                 (if d \<le> 2 powi (- 52) then Inr (Num 1)
                  else Inr (Num (round_nearest_even (1 / d)))))
        \<or> (goal_distance ?g (Num (1 / 4)) (Num (1 / 4)) = PosInf \<and> max_double < 1 / 2
             \<and> emulate_light_sensor ?c (Num (1 / 4)) (Num (1 / 4)) = Inr (Num 0))"
    by (rule emulate_light_sensor_rounded_reference [of ?c "Num (1 / 4)" "Num (1 / 4)",
          THEN conjunct2, rule_format, of ?g "3 / 4" "1 / 4" "1 / 4" "1 / 4" "1 / 2" 0 "1 / 2",
          OF prem])
  then obtain d where d: "goal_distance ?g (Num (1 / 4)) (Num (1 / 4)) = Num d"
    and rd: "emulate_light_sensor ?c (Num (1 / 4)) (Num (1 / 4)) =
                 (if d \<le> 2 powi (- 52) then Inr (Num 1)
                  else Inr (Num (round_nearest_even (1 / d))))"
    using example_distance by auto
  from d have "d = 1 / 2" by (simp only: example_distance double.inject)
  then have "emulate_light_sensor ?c (Num (1 / 4)) (Num (1 / 4)) =
      Inr (Num (round_nearest_even (1 / (1 / 2))))"
    using rd e by (simp only: if_False)
  then show ?thesis using g gx gy dx dy mx my r example_distance by (intro conjI)
qed

text \<open>
  The reference function over the real Euclidean distance is not what the code computes.
  At a real distance of \<open>2 powi (- 52) + 2 powi (- 106)\<close>, above epsilon, the reference is
  above \<open>2 powi 51\<close> and the code returns 1, the difference having been rounded to
  epsilon. At the real distance \<open>169 * 2 powi 1017\<close> the reference is positive and the
  code returns 0, the distance having overflowed.
\<close>

theorem emulate_light_sensor_reference_counterexample:
  "emulate_light_sensor
      (example_controller (Some (pose_at (Num (2 powi (- 52) + 2 powi (- 104))) (Num 0))))
      (Num (3 * 2 powi (- 106))) (Num 0) = Inr (Num 1)
   \<and> 2 powi 51 < reference_light_sensor (Some (2 powi (- 52) + 2 powi (- 104), 0))
                     (3 * 2 powi (- 106)) 0
   \<and> emulate_light_sensor
        (example_controller (Some (pose_at (Num (far_coordinate 119)) (Num (far_coordinate 120)))))
        (Num 0) (Num 0) = Inr (Num 0)
   \<and> 0 < reference_light_sensor (Some (far_coordinate 119, far_coordinate 120)) 0 0"
proof -
  let ?gx = "(2::real) powi (- 52) + 2 powi (- 104)"
  let ?xo = "3 * (2::real) powi (- 106)"
  let ?g = "pose_at (Num ?gx) (Num 0)"
  have e52: "(0::real) < 2 powi (- 52)" by (rule zero_less_power_int) simp
  have diff: "?gx - ?xo = 2 powi (- 52) + 2 powi (- 106)" by (simp add: power_int_minus)
  have d_lo: "2 powi (- 52) < ?gx - ?xo"
    unfolding diff using zero_less_power_int [of "2::real" "- 106"] by linarith
  have "(2::real) powi (- 106) < 2 powi (- 52)" by (rule power_int_strict_increasing) simp_all
  moreover have "(2::real) powi (- 52) + 2 powi (- 52) = 2 powi (- 51)"
    using power_int_add [of "2::real" 1 "- 52"] by simp
  ultimately have d_hi: "?gx - ?xo < 2 powi (- 51)" unfolding diff by linarith
  have "sqrt (2 powi (- 52) * 2 powi (- 52) + 0 * 0) = real_of_int 1 * 2 powi (- 52)"
    using e52 by (simp only: mult_zero_left add_0_right real_sqrt_abs2 abs_of_pos of_int_1 mult_1)
  then have "hypot_finite (2 powi (- 52)) 0 =
      (if max_double < real_of_int 1 * 2 powi (- 52) then PosInf
       else Num (real_of_int 1 * 2 powi (- 52)))"
    by (rule hypot_finite_exact) simp_all
  moreover have "\<not> max_double < real_of_int 1 * 2 powi (- 52)"
    using power_int_increasing [of "- 52" 1023 "2::real"] max_double_bounds(1) by simp
  ultimately have h: "hypot_finite (2 powi (- 52)) 0 = Num (2 powi (- 52))"
    by (simp only: if_False of_int_1 mult_1)
  have "goal_distance ?g (Num ?xo) (Num 0) = Num (2 powi (- 52))"
    by (simp only: pose_at_def point.simps pose.simps fsub.simps diff_self
        threshold_difference_rounds_to_epsilon to_double_zero hypot.simps h)
  then have code: "emulate_light_sensor (example_controller (Some ?g)) (Num ?xo) (Num 0) = Inr (Num 1)"
    using emulate_light_sensor_goal [OF example_goal_pose, of ?g "Num ?xo" "Num 0"] e52
    by (simp add: epsilon_def del: power_int_minus)
  have pos: "0 < ?gx - ?xo" using d_lo e52 by linarith
  have ed: "euclidean_distance (?gx, 0) (?xo, 0) = ?gx - ?xo"
    by (simp only: euclidean_distance_def fst_conv snd_conv diff_self zero_power2 add_0_right
        real_sqrt_abs abs_of_pos [OF pos])
  have "\<not> \<bar>?gx - ?xo\<bar> \<le> 2 powi (- 52)" using d_lo by linarith
  then have "reference_light_sensor (Some (?gx, 0)) ?xo 0 = 1 / (?gx - ?xo)"
    by (simp only: reference_light_sensor_def option.case Let_def ed if_False)
  moreover have "1 / 2 powi (- 51) < 1 / (?gx - ?xo)"
    using d_lo e52 d_hi by (intro reciprocal_less) linarith+
  moreover have "1 / (2::real) powi (- 51) = 2 powi 51"
    using reciprocal_powi [of "- 51"] by (simp only: minus_minus)
  ultimately have ref: "2 powi 51 < reference_light_sensor (Some (?gx, 0)) ?xo 0" by simp
  have far: "euclidean_distance (far_coordinate 119, far_coordinate 120) (0, 0) = far_coordinate 169"
    using far_hypot
    by (simp only: euclidean_distance_def fst_conv snd_conv diff_zero power2_eq_square)
  have big: "max_double < far_coordinate 169" by (rule far_coordinate_gt) simp
  have "(2::real) powi (- 52) \<le> max_double"
    using power_int_increasing [of "- 52" 1023 "2::real"] max_double_bounds(1) by simp
  then have f_lo: "\<not> \<bar>far_coordinate 169\<bar> \<le> 2 powi (- 52)" and f_pos: "0 < far_coordinate 169"
    using big e52 by linarith+
  have "reference_light_sensor (Some (far_coordinate 119, far_coordinate 120)) 0 0
      = 1 / far_coordinate 169"
    using f_lo by (simp only: reference_light_sensor_def option.case Let_def far if_False)
  then have ref_far: "0 < reference_light_sensor (Some (far_coordinate 119, far_coordinate 120)) 0 0"
    using f_pos by (simp only: zero_less_divide_1_iff)
  from code ref far_goal_reading ref_far show ?thesis by (intro conjI)
qed

text \<open>
  C5. The claim is that no reading exceeds 1, the value returned at distance zero, which
  the comment at that \<^verbatim>\<open>return 1\<close> calls the maximal sensor output. The code does
  not keep to it: with the goal half a metre from the sensor, at \<open>(3/4, 1/4)\<close> for the
  sensor at \<open>(1/4, 1/4)\<close>, the reading is 2.
\<close>

theorem emulate_light_sensor_exceeds_one:
  "emulate_light_sensor (example_controller (Some (pose_at (Num (3 / 4)) (Num (1 / 4)))))
     (Num (1 / 4)) (Num (1 / 4)) = Inr (Num 2)
   \<and> \<not> fle (Num 2) (Num 1)"
  by (simp add: example_reading)

text \<open>
  C7. \<open>emulate_light_sensor\<close> never divides by zero and never fails. It divides only on
  the path where a goal is held and the test \<open>|d| \<le> epsilon\<close> fails; there the divisor
  \<open>d\<close> is not zero, and either \<open>|d|\<close> exceeds machine epsilon or \<open>d\<close> is a NaN. On the
  other two paths it returns the constants 0 and 1.
\<close>

theorem emulate_light_sensor_division_guarded:
  "(\<exists>v. emulate_light_sensor c x_offset y_offset = Inr v)
   \<and> (goal_pose c = None \<longrightarrow> emulate_light_sensor c x_offset y_offset = Inr (Num 0))
   \<and> (\<forall>g. goal_pose c = Some g \<and> fle (fabs (goal_distance g x_offset y_offset)) epsilon \<longrightarrow>
          emulate_light_sensor c x_offset y_offset = Inr (Num 1))
   \<and> (\<forall>g. goal_pose c = Some g \<and> \<not> fle (fabs (goal_distance g x_offset y_offset)) epsilon \<longrightarrow>
          emulate_light_sensor c x_offset y_offset = fdiv (Num 1) (goal_distance g x_offset y_offset)
          \<and> goal_distance g x_offset y_offset \<noteq> Num 0
          \<and> (flt epsilon (fabs (goal_distance g x_offset y_offset))
              \<or> goal_distance g x_offset y_offset = NaN))"
  using emulate_light_sensor_total [of c x_offset y_offset]
  by (auto simp: emulate_light_sensor_no_goal emulate_light_sensor_goal
      dest: above_epsilon_nonzero above_epsilon_cases)

text \<open>The dividing path at the example goal: the distance is a half, above epsilon.\<close>

theorem emulate_light_sensor_division_guarded_witness:
  "goal_pose (example_controller (Some (pose_at (Num (3 / 4)) (Num (1 / 4))))) =
     Some (pose_at (Num (3 / 4)) (Num (1 / 4)))
   \<and> \<not> fle (fabs (goal_distance (pose_at (Num (3 / 4)) (Num (1 / 4))) (Num (1 / 4)) (Num (1 / 4))))
         epsilon
   \<and> emulate_light_sensor (example_controller (Some (pose_at (Num (3 / 4)) (Num (1 / 4)))))
        (Num (1 / 4)) (Num (1 / 4)) = fdiv (Num 1) (Num (1 / 2))
   \<and> flt epsilon (fabs (Num (1 / 2)))"
proof -
  let ?g = "pose_at (Num (3 / 4)) (Num (1 / 4))"
  have g: "goal_pose (example_controller (Some ?g)) = Some ?g" by (rule example_goal_pose)
  have b: "\<not> fle (fabs (goal_distance ?g (Num (1 / 4)) (Num (1 / 4)))) epsilon"
    by (simp add: example_distance epsilon_def epsilon_less_half)
  show ?thesis
    using g b emulate_light_sensor_division_guarded [of "example_controller (Some ?g)"
        "Num (1 / 4)" "Num (1 / 4)"]
    by (auto simp: example_distance)
qed

text \<open>
  With a NaN coordinate in the goal the distance is a NaN: the test \<open>|d| \<le> epsilon\<close> is
  false, so the division is reached, and \<open>|d|\<close> does not exceed epsilon either.
\<close>

theorem emulate_light_sensor_division_branch_counterexample:
  "goal_pose (example_controller (Some (pose_at NaN (Num (1 / 4))))) =
     Some (pose_at NaN (Num (1 / 4)))
   \<and> goal_distance (pose_at NaN (Num (1 / 4))) (Num (1 / 4)) (Num (1 / 4)) = NaN
   \<and> \<not> fle (fabs NaN) epsilon
   \<and> emulate_light_sensor (example_controller (Some (pose_at NaN (Num (1 / 4)))))
        (Num (1 / 4)) (Num (1 / 4)) = fdiv (Num 1) NaN
   \<and> \<not> flt epsilon (fabs NaN)"
  by (simp add: emulate_light_sensor_def example_controller_def pose_at_def to_double_zero
      epsilon_def)

text \<open>
  C10. Without a goal the reading is 0. With a goal the reading follows the computed
  distance, which is never minus infinity: a finite distance gives a finite, strictly
  positive reading; the distance plus infinity gives the reading 0, although a goal is
  held; a NaN distance gives a NaN. So no reading is negative. In a tick with a goal whose
  two distances are finite, both inputs handed to the motion model are strictly positive.
\<close>

theorem emulate_light_sensor_reading_sign:
  "(goal_pose (node w) = None \<longrightarrow> emulate_light_sensor (node w) x_offset y_offset = Inr (Num 0))
   \<and> (\<forall>g v. goal_pose (node w) = Some g \<and> goal_distance g x_offset y_offset = Num v \<longrightarrow>
          (\<exists>u. emulate_light_sensor (node w) x_offset y_offset = Inr (Num u) \<and> 0 < u))
   \<and> (\<forall>g. goal_pose (node w) = Some g \<and> goal_distance g x_offset y_offset = PosInf \<longrightarrow>
          emulate_light_sensor (node w) x_offset y_offset = Inr (Num 0))
   \<and> (\<forall>g. goal_pose (node w) = Some g \<and> goal_distance g x_offset y_offset = NaN \<longrightarrow>
          emulate_light_sensor (node w) x_offset y_offset = Inr NaN)
   \<and> (\<forall>g. goal_distance g x_offset y_offset \<noteq> NegInf)
   \<and> (\<forall>g vl vr. goal_pose (node w) = Some g
          \<and> goal_distance g (virtual_light_sensor_position_x_offset (node w))
               (fmul (virtual_light_sensor_position_y_offset (node w)) (Num (- 1))) = Num vl
          \<and> goal_distance g (virtual_light_sensor_position_x_offset (node w))
               (virtual_light_sensor_position_y_offset (node w)) = Num vr \<longrightarrow>
          (\<exists>l r. 0 < l \<and> 0 < r
             \<and> timer_callback w =
                 Inr (w\<lparr>trace := trace w @
                       [Lock, Get_twist (Num l) (Num r),
                        Publish (motion_model (node w) (Num l) (Num r)), Unlock]\<rparr>)))"
proof -
  have "\<exists>l r. 0 < l \<and> 0 < r
             \<and> timer_callback w =
                 Inr (w\<lparr>trace := trace w @
                       [Lock, Get_twist (Num l) (Num r),
                        Publish (motion_model (node w) (Num l) (Num r)), Unlock]\<rparr>)"
    if g: "goal_pose (node w) = Some g"
      and dl: "goal_distance g (virtual_light_sensor_position_x_offset (node w))
               (fmul (virtual_light_sensor_position_y_offset (node w)) (Num (- 1))) = Num vl"
      and dr: "goal_distance g (virtual_light_sensor_position_x_offset (node w))
               (virtual_light_sensor_position_y_offset (node w)) = Num vr"
    for g vl vr
  proof -
    obtain l where l: "emulate_light_sensor (node w) (virtual_light_sensor_position_x_offset (node w))
        (fmul (virtual_light_sensor_position_y_offset (node w)) (Num (- 1))) = Inr (Num l)"
      and "0 < l"
      using emulate_light_sensor_finite [OF g dl] by blast
    moreover obtain r where r: "emulate_light_sensor (node w)
        (virtual_light_sensor_position_x_offset (node w))
        (virtual_light_sensor_position_y_offset (node w)) = Inr (Num r)"
      and "0 < r"
      using emulate_light_sensor_finite [OF g dr] by blast
    ultimately show ?thesis using timer_callback_seeking [OF g l r] by blast
  qed
  then have tick: "\<forall>g vl vr. goal_pose (node w) = Some g
          \<and> goal_distance g (virtual_light_sensor_position_x_offset (node w))
               (fmul (virtual_light_sensor_position_y_offset (node w)) (Num (- 1))) = Num vl
          \<and> goal_distance g (virtual_light_sensor_position_x_offset (node w))
               (virtual_light_sensor_position_y_offset (node w)) = Num vr \<longrightarrow>
          (\<exists>l r. 0 < l \<and> 0 < r
             \<and> timer_callback w =
                 Inr (w\<lparr>trace := trace w @
                       [Lock, Get_twist (Num l) (Num r),
                        Publish (motion_model (node w) (Num l) (Num r)), Unlock]\<rparr>))"
    by blast
  have none: "goal_pose (node w) = None \<longrightarrow>
      emulate_light_sensor (node w) x_offset y_offset = Inr (Num 0)"
    by (simp add: emulate_light_sensor_no_goal)
  have fin: "\<forall>g v. goal_pose (node w) = Some g \<and> goal_distance g x_offset y_offset = Num v \<longrightarrow>
      (\<exists>u. emulate_light_sensor (node w) x_offset y_offset = Inr (Num u) \<and> 0 < u)"
    using emulate_light_sensor_finite by blast
  have inf: "\<forall>g. goal_pose (node w) = Some g \<and> goal_distance g x_offset y_offset = PosInf \<longrightarrow>
      emulate_light_sensor (node w) x_offset y_offset = Inr (Num 0)"
    using emulate_light_sensor_infinite by blast
  have nan: "\<forall>g. goal_pose (node w) = Some g \<and> goal_distance g x_offset y_offset = NaN \<longrightarrow>
      emulate_light_sensor (node w) x_offset y_offset = Inr NaN"
    using emulate_light_sensor_NaN by blast
  have neg: "\<forall>g. goal_distance g x_offset y_offset \<noteq> NegInf"
    using goal_distance_not_NegInf by blast
  from none fin inf nan neg tick show ?thesis by (intro conjI)
qed

text \<open>The finite case at the example goal, half a metre from the sensor.\<close>

theorem emulate_light_sensor_reading_sign_witness:
  "goal_pose (node (start (example_controller (Some (pose_at (Num (3 / 4)) (Num (1 / 4))))))) =
     Some (pose_at (Num (3 / 4)) (Num (1 / 4)))
   \<and> goal_distance (pose_at (Num (3 / 4)) (Num (1 / 4))) (Num (1 / 4)) (Num (1 / 4)) = Num (1 / 2)
   \<and> (\<exists>u. emulate_light_sensor
             (node (start (example_controller (Some (pose_at (Num (3 / 4)) (Num (1 / 4)))))))
             (Num (1 / 4)) (Num (1 / 4)) = Inr (Num u) \<and> 0 < u)"
proof -
  let ?w = "start (example_controller (Some (pose_at (Num (3 / 4)) (Num (1 / 4)))))"
  have g: "goal_pose (node ?w) = Some (pose_at (Num (3 / 4)) (Num (1 / 4)))"
    by (simp add: start_def example_goal_pose)
  show ?thesis
    using g example_distance
      emulate_light_sensor_reading_sign [of ?w "Num (1 / 4)" "Num (1 / 4)"]
    by blast
qed

text \<open>
  A goal is held and the reading is 0 all the same: with an infinite coordinate, and with
  the finite coordinates \<open>119 * 2 powi 1017\<close> and \<open>120 * 2 powi 1017\<close>, whose distance
  from the origin, \<open>169 * 2 powi 1017\<close>, overflows.
\<close>

theorem emulate_light_sensor_positive_counterexample:
  "goal_pose (example_controller (Some (pose_at PosInf (Num (1 / 4))))) \<noteq> None
   \<and> emulate_light_sensor (example_controller (Some (pose_at PosInf (Num (1 / 4)))))
        (Num (1 / 4)) (Num (1 / 4)) = Inr (Num 0)
   \<and> goal_pose (example_controller
        (Some (pose_at (Num (far_coordinate 119)) (Num (far_coordinate 120))))) \<noteq> None
   \<and> emulate_light_sensor
        (example_controller (Some (pose_at (Num (far_coordinate 119)) (Num (far_coordinate 120)))))
        (Num 0) (Num 0) = Inr (Num 0)"
proof -
  have "emulate_light_sensor (example_controller (Some (pose_at PosInf (Num (1 / 4)))))
        (Num (1 / 4)) (Num (1 / 4)) = Inr (Num 0)"
    by (simp add: emulate_light_sensor_def example_controller_def pose_at_def epsilon_def)
  then show ?thesis by (simp add: far_goal_reading example_goal_pose)
qed

subsection \<open>The tick\<close>

text \<open>
  C3. In a tick with a goal held, the first (left) input of the motion model is the
  reading at \<open>(x_offset, - y_offset)\<close>, the right-mounted sensor, and the second (right)
  input is the reading at \<open>(x_offset, y_offset)\<close>, the left-mounted one. The code writes
  the negation as a product with \<open>- 1\<close>, which is the negation for every double.
\<close>

theorem timer_callback_crossed_wiring:
  assumes "goal_pose (node w) = Some g"
    and "is_double (virtual_light_sensor_position_y_offset (node w))"
  shows "\<exists>l r. emulate_light_sensor (node w) (virtual_light_sensor_position_x_offset (node w))
                 (fneg (virtual_light_sensor_position_y_offset (node w))) = Inr l
             \<and> emulate_light_sensor (node w) (virtual_light_sensor_position_x_offset (node w))
                 (virtual_light_sensor_position_y_offset (node w)) = Inr r
             \<and> timer_callback w =
                 Inr (w\<lparr>trace := trace w @
                       [Lock, Get_twist l r, Publish (motion_model (node w) l r), Unlock]\<rparr>)"
proof -
  let ?x = "virtual_light_sensor_position_x_offset (node w)"
  let ?y = "virtual_light_sensor_position_y_offset (node w)"
  obtain l where l: "emulate_light_sensor (node w) ?x (fneg ?y) = Inr l"
    using emulate_light_sensor_total by blast
  obtain r where r: "emulate_light_sensor (node w) ?x ?y = Inr r"
    using emulate_light_sensor_total by blast
  have "emulate_light_sensor (node w) ?x (fmul ?y (Num (- 1))) = Inr l"
    using l fmul_minus_one [OF assms(2)] by simp
  then have "timer_callback w =
      Inr (w\<lparr>trace := trace w @ [Lock, Get_twist l r, Publish (motion_model (node w) l r), Unlock]\<rparr>)"
    using r by (rule timer_callback_seeking [OF assms(1)])
  with l r show ?thesis by blast
qed

text \<open>
  The example controller with the goal at \<open>(3/4, 1/4)\<close>: the right input is the reading 2
  of the left-mounted sensor.
\<close>

theorem timer_callback_crossed_wiring_witness:
  "goal_pose (node (start (example_controller (Some (pose_at (Num (3 / 4)) (Num (1 / 4))))))) =
     Some (pose_at (Num (3 / 4)) (Num (1 / 4)))
   \<and> is_double (virtual_light_sensor_position_y_offset
        (node (start (example_controller (Some (pose_at (Num (3 / 4)) (Num (1 / 4))))))))
   \<and> (\<exists>l. emulate_light_sensor (example_controller (Some (pose_at (Num (3 / 4)) (Num (1 / 4)))))
              (Num (1 / 4)) (Num (- (1 / 4))) = Inr l
          \<and> timer_callback (start (example_controller (Some (pose_at (Num (3 / 4)) (Num (1 / 4)))))) =
              Inr \<lparr>node = example_controller (Some (pose_at (Num (3 / 4)) (Num (1 / 4)))),
                   trace = [Lock, Get_twist l (Num 2), Publish (example_motion_model l (Num 2)),
                            Unlock]\<rparr>)"
proof -
  let ?w = "start (example_controller (Some (pose_at (Num (3 / 4)) (Num (1 / 4)))))"
  have g: "goal_pose (node ?w) = Some (pose_at (Num (3 / 4)) (Num (1 / 4)))"
    by (simp add: start_def example_controller_def)
  have d: "is_double (virtual_light_sensor_position_y_offset (node ?w))"
    by (simp add: start_def example_controller_def to_double_quarter)
  show ?thesis
    using g d timer_callback_crossed_wiring [OF g d] example_reading
    by (auto simp: start_def example_controller_def)
qed

text \<open>
  C4. Every tick returns and publishes exactly one velocity command: the zero twist when
  no goal is held, and the motion model's output for the two sensor readings when one is.
\<close>

theorem timer_callback_publishes_once:
  "\<exists>w' t. timer_callback w = Inr w' \<and> published (new_events w w') = [t]
      \<and> (goal_pose (node w) = None \<longrightarrow> t = zero_twist)
      \<and> (goal_pose (node w) \<noteq> None \<longrightarrow>
           (\<exists>l r. emulate_light_sensor (node w) (virtual_light_sensor_position_x_offset (node w))
                     (fmul (virtual_light_sensor_position_y_offset (node w)) (Num (- 1))) = Inr l
                 \<and> emulate_light_sensor (node w) (virtual_light_sensor_position_x_offset (node w))
                     (virtual_light_sensor_position_y_offset (node w)) = Inr r
                 \<and> t = motion_model (node w) l r))"
proof (cases "goal_pose (node w)")
  case None
  then show ?thesis by (simp add: timer_callback_idle new_events_append)
next
  case (Some g)
  let ?x = "virtual_light_sensor_position_x_offset (node w)"
  let ?y = "virtual_light_sensor_position_y_offset (node w)"
  obtain l where l: "emulate_light_sensor (node w) ?x (fmul ?y (Num (- 1))) = Inr l"
    using emulate_light_sensor_total by blast
  obtain r where r: "emulate_light_sensor (node w) ?x ?y = Inr r"
    using emulate_light_sensor_total by blast
  show ?thesis using Some l r
    by (simp add: timer_callback_seeking [OF Some l r] new_events_append)
qed

text \<open>The idle tick of the example controller publishes the zero twist, once.\<close>

theorem timer_callback_publishes_once_witness:
  "goal_pose (node (start (example_controller None))) = None
   \<and> (\<exists>w'. timer_callback (start (example_controller None)) = Inr w'
          \<and> published (new_events (start (example_controller None)) w') = [zero_twist])"
  using timer_callback_publishes_once [of "start (example_controller None)"]
  by (auto simp: start_def example_controller_def)

text \<open>
  C6. The tick holds the mutex across its publish call: it locks first, publishes its one
  command while the mutex is held, and unlocks last, with no other lock or unlock in
  between. The goal callback and the scan callback only lock and unlock; they publish
  nothing.
\<close>

theorem timer_callback_publishes_under_lock:
  "(\<exists>w' es t. timer_callback w = Inr w' \<and> new_events w w' = Lock # es @ [Publish t, Unlock]
       \<and> published es = [] \<and> Lock \<notin> set es \<and> Unlock \<notin> set es
       \<and> publish_while_locked False (new_events w w'))
   \<and> new_events w (goal_pose_callback msg w) = [Lock, Unlock]
   \<and> new_events w (scan_callback scan w) = [Lock, Unlock]"
proof -
  obtain w' t where w': "timer_callback w = Inr w'"
    and ev: "new_events w w' = [Lock, Publish t, Unlock]
          \<or> (\<exists>l r. new_events w w' = [Lock, Get_twist l r, Publish t, Unlock])"
    using timer_callback_trace [of w] by blast
  from ev have "\<exists>es. new_events w w' = Lock # es @ [Publish t, Unlock]
       \<and> published es = [] \<and> Lock \<notin> set es \<and> Unlock \<notin> set es
       \<and> publish_while_locked False (new_events w w')"
    by auto
  with w' have "\<exists>w' es t. timer_callback w = Inr w'
       \<and> new_events w w' = Lock # es @ [Publish t, Unlock]
       \<and> published es = [] \<and> Lock \<notin> set es \<and> Unlock \<notin> set es
       \<and> publish_while_locked False (new_events w w')"
    by blast
  moreover have "new_events w (goal_pose_callback msg w) = [Lock, Unlock]"
    by (simp add: new_events_def goal_pose_callback_def Let_def mutex_lock_def mutex_unlock_def
        emit_def set_goal_pose_def)
  moreover have "new_events w (scan_callback scan w) = [Lock, Unlock]"
    by (simp add: new_events_def scan_callback_def mutex_lock_def mutex_unlock_def emit_def)
  ultimately show ?thesis by blast
qed

text \<open>The idle tick of the example controller publishes between its lock and its unlock.\<close>

theorem timer_callback_lock_released_before_publish_counterexample:
  "timer_callback (start (example_controller None)) =
     Inr \<lparr>node = example_controller None, trace = [Lock, Publish zero_twist, Unlock]\<rparr>
   \<and> publish_while_locked False [Lock, Publish zero_twist, Unlock]"
  by (simp add: timer_callback_idle start_def example_controller_def)

subsection \<open>The scan callback\<close>

text \<open>
  C8. For every scan, \<open>scan_callback\<close> leaves the controller as it was, goal, frame id,
  sensor offsets and motion model, and does nothing but lock and unlock the mutex.
\<close>

theorem scan_callback_no_effect:
  "node (scan_callback scan w) = node w
   \<and> trace (scan_callback scan w) = trace w @ [Lock, Unlock]"
  by (simp add: scan_callback_def mutex_lock_def mutex_unlock_def emit_def)

end
